theory Spec2Isabelle
  imports Complex_Main "HOL-Library.Char_ord" "HOL-Library.List_Lexorder" "HOL-Library.Log_Nat"
begin

section \<open>Data model of the point-of-sale storage layer\<close>

text \<open>
  The records follow the interfaces of the storage module field by field.  Field names
  carry a short prefix (\<open>u_\<close>, \<open>p_\<close>, \<open>v_\<close>, \<open>ci_\<close>, \<open>s_\<close>) because several interfaces share
  the names \<open>id\<close>, \<open>name\<close>, \<open>price\<close>, \<open>total\<close> and so on.

  A JavaScript \<open>number\<close> is a rational: every finite double is one.  \<open>NaN\<close> and the
  infinities are outside this model.  Strings are character lists compared
  lexicographically, as \<open>\<le>\<close> and \<open>\<ge>\<close> on JavaScript strings do.
\<close>

type_synonym number = rat

text \<open>
  Double-precision arithmetic.  \<open>round_double\<close> is rounding to the nearest binary64
  value, ties to even: a significand of 53 bits, and the spacing \<open>pow2 (- 1074)\<close> of
  the subnormal range as the finest one.  Results beyond the largest finite double, which
  JavaScript turns into an infinity, are outside the model.  \<open>double_add\<close> and
  \<open>double_div\<close> are \<open>+\<close> and \<open>/\<close> on doubles: the exact result, rounded.

  The report's totals, daily breakdown and payment breakdown add the same sale totals in
  different orders, so whether these figures agree depends on the rounding, and their
  additions are the rounded ones.  The storage operations and the product ranking compute
  each figure once, from left to right; there the sums and differences are written with
  the exact \<open>+\<close> and \<open>-\<close>.
\<close>

definition pow2 :: "int \<Rightarrow> rat" where
  "pow2 e = (if 0 \<le> e then 2 ^ nat e else 1 / 2 ^ nat (- e))"

definition round_half_even :: "rat \<Rightarrow> int" where
  "round_half_even x =
     (let f = \<lfloor>x\<rfloor>; d = x - of_int f
      in if d < 1 / 2 then f else if 1 / 2 < d then f + 1 else if even f then f else f + 1)"

text \<open>\<open>\<lfloor>log\<^sub>2 |x|\<rfloor>\<close> for \<open>x \<noteq> 0\<close>, from the bit lengths of numerator and denominator.\<close>

definition ilog2 :: "rat \<Rightarrow> int" where
  "ilog2 x =
     (case quotient_of \<bar>x\<bar> of
        (p, q) \<Rightarrow> (let k = bitlen p - bitlen q in if pow2 k \<le> \<bar>x\<bar> then k else k - 1))"

definition round_double :: "rat \<Rightarrow> rat" where
  "round_double x =
     (if x = 0 then 0
      else (let e = max (ilog2 x - 52) (- 1074)
            in of_int (round_half_even (x / pow2 e)) * pow2 e))"

definition double_add :: "number \<Rightarrow> number \<Rightarrow> number" where
  "double_add a b = round_double (a + b)"

definition double_div :: "number \<Rightarrow> number \<Rightarrow> number" where
  "double_div a b = round_double (a / b)"

datatype role = admin | cashier

record User =
  u_id :: string
  u_username :: string
  u_password :: string
  u_role :: role
  u_createdAt :: string
  u_isActive :: bool

record ProductVariant =
  v_id :: string
  v_name :: string
  v_price :: number
  v_stock :: number

record Product =
  p_id :: string
  p_name :: string
  p_code :: string
  p_category :: string
  p_price :: number
  p_stock :: number
  p_minStock :: number
  p_variants :: "ProductVariant list option"
  p_isActive :: bool
  p_createdAt :: string
  p_updatedAt :: string

record CartItem =
  ci_productId :: string
  ci_variantId :: "string option"
  ci_name :: string
  ci_price :: number
  ci_quantity :: number
  ci_total :: number

datatype paymentMethod = pm_cash | pm_card | pm_other

record Sale =
  s_id :: string
  s_items :: "CartItem list"
  s_subtotal :: number
  s_tax :: number
  s_discount :: number
  s_total :: number
  s_paymentMethod :: paymentMethod
  s_amountPaid :: number
  s_change :: number
  s_cashierId :: string
  s_cashierName :: string
  s_receiptPrinted :: bool
  s_timestamp :: string
  s_date :: string

text \<open>
  The settings document is untyped in the storage module (\<open>any\<close>), so it is kept as a
  JSON value; \<open>truthy\<close> is JavaScript's conversion to a boolean, which \<open>||\<close> and \<open>if\<close> apply.
\<close>

datatype json =
    JNull
  | JBool bool
  | JNum number
  | JStr string
  | JArr "json list"
  | JObj "(string \<times> json) list"

fun truthy :: "json \<Rightarrow> bool" where
  "truthy JNull = False"
| "truthy (JBool b) = b"
| "truthy (JNum n) = (n \<noteq> 0)"
| "truthy (JStr s) = (s \<noteq> [])"
| "truthy (JArr xs) = True"
| "truthy (JObj kvs) = True"

text \<open>Property access \<open>obj.key\<close>: \<open>None\<close> is \<open>undefined\<close>.\<close>

fun get_field :: "string \<Rightarrow> json \<Rightarrow> json option" where
  "get_field k (JObj kvs) = map_of kvs k"
| "get_field k _ = None"

fun field_names :: "json \<Rightarrow> string list" where
  "field_names (JObj kvs) = map fst kvs"
| "field_names _ = []"

section \<open>The key-value substrate\<close>

text \<open>
  The browser's local storage holds one entry per storage key.  \<open>None\<close> is a key that is
  not set, for which \<open>storage.get\<close> returns \<open>null\<close>.
\<close>

record storage =
  pos_users :: "User list option"
  pos_products :: "Product list option"
  pos_sales :: "Sale list option"
  pos_settings :: "json option"

definition empty_storage :: storage where
  "empty_storage = \<lparr>pos_users = None, pos_products = None, pos_sales = None, pos_settings = None\<rparr>"

text \<open>\<open>Array.prototype.findIndex\<close>; \<open>None\<close> stands for the result \<open>-1\<close>.\<close>

fun findIndex :: "('a \<Rightarrow> bool) \<Rightarrow> 'a list \<Rightarrow> nat option" where
  "findIndex P [] = None"
| "findIndex P (x # xs) =
     (if P x then Some 0 else map_option Suc (findIndex P xs))"

section \<open>User management\<close>

definition userStorage_getAll :: "storage \<Rightarrow> User list" where
  "userStorage_getAll st = (case pos_users st of None \<Rightarrow> [] | Some users \<Rightarrow> users)"

definition userStorage_save :: "User list \<Rightarrow> storage \<Rightarrow> storage" where
  "userStorage_save users st = st\<lparr>pos_users := Some users\<rparr>"

text \<open>
  \<open>add\<close> spreads the given fields and then sets \<open>id\<close> and \<open>createdAt\<close>; the fresh
  identifier and the clock reading are parameters.
\<close>

definition userStorage_add :: "User \<Rightarrow> string \<Rightarrow> string \<Rightarrow> storage \<Rightarrow> User \<times> storage" where
  "userStorage_add user newId now st =
     (let users = userStorage_getAll st;
          newUser = user\<lparr>u_id := newId, u_createdAt := now\<rparr>
      in (newUser, userStorage_save (users @ [newUser]) st))"

text \<open>\<open>Partial<User>\<close>: a field that the patch does not carry is \<open>None\<close>.\<close>

record UserPatch =
  pu_id :: "string option"
  pu_username :: "string option"
  pu_password :: "string option"
  pu_role :: "role option"
  pu_createdAt :: "string option"
  pu_isActive :: "bool option"

definition orElse :: "'a option \<Rightarrow> 'a \<Rightarrow> 'a" where
  "orElse patch old = (case patch of None \<Rightarrow> old | Some v \<Rightarrow> v)"

text \<open>The object spread \<open>{ ...user, ...updates }\<close>.\<close>

definition spreadUser :: "User \<Rightarrow> UserPatch \<Rightarrow> User" where
  "spreadUser u updates =
     \<lparr>u_id = orElse (pu_id updates) (u_id u),
      u_username = orElse (pu_username updates) (u_username u),
      u_password = orElse (pu_password updates) (u_password u),
      u_role = orElse (pu_role updates) (u_role u),
      u_createdAt = orElse (pu_createdAt updates) (u_createdAt u),
      u_isActive = orElse (pu_isActive updates) (u_isActive u)\<rparr>"

definition userStorage_update :: "string \<Rightarrow> UserPatch \<Rightarrow> storage \<Rightarrow> bool \<times> storage" where
  "userStorage_update ident updates st =
     (let users = userStorage_getAll st in
      case findIndex (\<lambda>u. u_id u = ident) users of
        None \<Rightarrow> (False, st)
      | Some index \<Rightarrow>
          (True, userStorage_save (users[index := spreadUser (users ! index) updates]) st))"

definition userStorage_delete :: "string \<Rightarrow> storage \<Rightarrow> bool \<times> storage" where
  "userStorage_delete ident st =
     (let users = userStorage_getAll st;
          filtered = filter (\<lambda>u. u_id u \<noteq> ident) users
      in if length filtered = length users then (False, st)
         else (True, userStorage_save filtered st))"

text \<open>
  \<open>users.find(...) || null\<close>: a user object is always truthy, so the result is the first
  match, and \<open>None\<close> (\<open>null\<close>) when there is none.
\<close>

definition findByCredentials :: "string \<Rightarrow> string \<Rightarrow> storage \<Rightarrow> User option" where
  "findByCredentials username password st =
     (let users = userStorage_getAll st in
      find (\<lambda>u. u_username u = username \<and> u_password u = password \<and> u_isActive u) users)"

section \<open>Product management\<close>

definition productStorage_getAll :: "storage \<Rightarrow> Product list" where
  "productStorage_getAll st = (case pos_products st of None \<Rightarrow> [] | Some products \<Rightarrow> products)"

definition productStorage_save :: "Product list \<Rightarrow> storage \<Rightarrow> storage" where
  "productStorage_save products st = st\<lparr>pos_products := Some products\<rparr>"

definition productStorage_add :: "Product \<Rightarrow> string \<Rightarrow> string \<Rightarrow> storage \<Rightarrow> Product \<times> storage" where
  "productStorage_add product newId now st =
     (let products = productStorage_getAll st;
          newProduct = product\<lparr>p_id := newId, p_createdAt := now, p_updatedAt := now\<rparr>
      in (newProduct, productStorage_save (products @ [newProduct]) st))"

text \<open>\<open>Partial<Product>\<close>.\<close>

record ProductPatch =
  pp_id :: "string option"
  pp_name :: "string option"
  pp_code :: "string option"
  pp_category :: "string option"
  pp_price :: "number option"
  pp_stock :: "number option"
  pp_minStock :: "number option"
  pp_variants :: "ProductVariant list option"
  pp_isActive :: "bool option"
  pp_createdAt :: "string option"
  pp_updatedAt :: "string option"

text \<open>The object spread \<open>{ ...product, ...updates }\<close>.\<close>

definition spreadProduct :: "Product \<Rightarrow> ProductPatch \<Rightarrow> Product" where
  "spreadProduct p updates =
     \<lparr>p_id = orElse (pp_id updates) (p_id p),
      p_name = orElse (pp_name updates) (p_name p),
      p_code = orElse (pp_code updates) (p_code p),
      p_category = orElse (pp_category updates) (p_category p),
      p_price = orElse (pp_price updates) (p_price p),
      p_stock = orElse (pp_stock updates) (p_stock p),
      p_minStock = orElse (pp_minStock updates) (p_minStock p),
      p_variants = (case pp_variants updates of None \<Rightarrow> p_variants p | Some vs \<Rightarrow> Some vs),
      p_isActive = orElse (pp_isActive updates) (p_isActive p),
      p_createdAt = orElse (pp_createdAt updates) (p_createdAt p),
      p_updatedAt = orElse (pp_updatedAt updates) (p_updatedAt p)\<rparr>"

text \<open>\<open>{ ...products[index], ...updates, updatedAt: new Date().toISOString() }\<close>.\<close>

definition productStorage_update ::
    "string \<Rightarrow> ProductPatch \<Rightarrow> string \<Rightarrow> storage \<Rightarrow> bool \<times> storage" where
  "productStorage_update ident updates now st =
     (let products = productStorage_getAll st in
      case findIndex (\<lambda>p. p_id p = ident) products of
        None \<Rightarrow> (False, st)
      | Some index \<Rightarrow>
          (True, productStorage_save
             (products[index := (spreadProduct (products ! index) updates)\<lparr>p_updatedAt := now\<rparr>]) st))"

definition productStorage_delete :: "string \<Rightarrow> storage \<Rightarrow> bool \<times> storage" where
  "productStorage_delete ident st =
     (let products = productStorage_getAll st;
          filtered = filter (\<lambda>p. p_id p \<noteq> ident) products
      in if length filtered = length products then (False, st)
         else (True, productStorage_save filtered st))"

datatype operation = op_add | op_subtract

definition updateStock ::
    "string \<Rightarrow> number \<Rightarrow> operation \<Rightarrow> string \<Rightarrow> storage \<Rightarrow> bool \<times> storage" where
  "updateStock ident quantity operation now st =
     (let products = productStorage_getAll st in
      case findIndex (\<lambda>p. p_id p = ident) products of
        None \<Rightarrow> (False, st)
      | Some index \<Rightarrow>
          (let currentStock = p_stock (products ! index);
               newStock = (if operation = op_add then currentStock + quantity
                           else currentStock - quantity)
           in if newStock < 0 then (False, st)
              else (True, productStorage_save
                      (products[index := (products ! index)\<lparr>p_stock := newStock, p_updatedAt := now\<rparr>])
                      st)))"

section \<open>Sales management\<close>

definition salesStorage_getAll :: "storage \<Rightarrow> Sale list" where
  "salesStorage_getAll st = (case pos_sales st of None \<Rightarrow> [] | Some sales \<Rightarrow> sales)"

definition salesStorage_save :: "Sale list \<Rightarrow> storage \<Rightarrow> storage" where
  "salesStorage_save sales st = st\<lparr>pos_sales := Some sales\<rparr>"

text \<open>
  The loop \<open>sale.items.forEach(item => productStorage.updateStock(item.productId,
  item.quantity))\<close>: the operation defaults to \<open>subtract\<close>, the boolean result is dropped,
  and \<open>stamps i\<close> is what the clock reads while line item \<open>i\<close> is processed.
\<close>

fun updateStock_forEach :: "CartItem list \<Rightarrow> (nat \<Rightarrow> string) \<Rightarrow> nat \<Rightarrow> storage \<Rightarrow> storage" where
  "updateStock_forEach [] stamps i st = st"
| "updateStock_forEach (item # rest) stamps i st =
     updateStock_forEach rest stamps (Suc i)
       (snd (updateStock (ci_productId item) (ci_quantity item) op_subtract (stamps i) st))"

text \<open>\<open>now.toISOString().split('T')[0]\<close>: the text before the first \<open>T\<close>.\<close>

definition isoDate :: "string \<Rightarrow> string" where
  "isoDate stamp = takeWhile (\<lambda>c. c \<noteq> CHR ''T'') stamp"

definition salesStorage_add ::
    "Sale \<Rightarrow> string \<Rightarrow> string \<Rightarrow> (nat \<Rightarrow> string) \<Rightarrow> storage \<Rightarrow> Sale \<times> storage" where
  "salesStorage_add sale newId now stamps st =
     (let sales = salesStorage_getAll st;
          newSale = sale\<lparr>s_id := newId, s_timestamp := now, s_date := isoDate now\<rparr>;
          st' = updateStock_forEach (s_items sale) stamps 0 st
      in (newSale, salesStorage_save (sales @ [newSale]) st'))"

definition getByDateRange :: "string \<Rightarrow> string \<Rightarrow> storage \<Rightarrow> Sale list" where
  "getByDateRange startDate endDate st =
     (let sales = salesStorage_getAll st in
      filter (\<lambda>s. s_date s \<ge> startDate \<and> s_date s \<le> endDate) sales)"



section \<open>System settings\<close>

definition default_settings :: json where
  "default_settings =
     JObj [(''storeName'', JStr ''Sari-sari Store''),
           (''storeAddress'', JStr ''123 Main Street''),
           (''storePhone'', JStr ''+63 123 456 7890''),
           (''taxRate'', JNum (12 / 100)),
           (''currency'', JStr ''PHP'')]"

text \<open>\<open>storage.get(SETTINGS) || { ... }\<close>: an unset key and a stored falsy value both give the default.\<close>

definition settingsStorage_get :: "storage \<Rightarrow> json" where
  "settingsStorage_get st =
     (case pos_settings st of
        None \<Rightarrow> default_settings
      | Some v \<Rightarrow> if truthy v then v else default_settings)"

definition settingsStorage_save :: "json \<Rightarrow> storage \<Rightarrow> storage" where
  "settingsStorage_save settings st = st\<lparr>pos_settings := Some settings\<rparr>"

section \<open>Data export and import\<close>

text \<open>
  The backup document.  A field is \<open>None\<close> when the parsed document has no such key.
  Writing the document with \<open>JSON.stringify\<close> and reading it back with \<open>JSON.parse\<close> is
  taken to return the same users, products, sales and settings.
\<close>

record Document =
  doc_users :: "User list option"
  doc_products :: "Product list option"
  doc_sales :: "Sale list option"
  doc_settings :: "json option"
  doc_exportDate :: "string option"

text \<open>The object that \<open>exportData\<close> serialises into the downloaded file.\<close>

definition exportData :: "string \<Rightarrow> storage \<Rightarrow> Document" where
  "exportData now st =
     \<lparr>doc_users = Some (userStorage_getAll st),
      doc_products = Some (productStorage_getAll st),
      doc_sales = Some (salesStorage_getAll st),
      doc_settings = Some (settingsStorage_get st),
      doc_exportDate = Some now\<rparr>"

text \<open>
  \<open>importData\<close> on the parsed file; \<open>None\<close> is a file on which \<open>JSON.parse\<close> throws.  Each
  \<open>if (data.key)\<close> tests truthiness: an array is always truthy, a settings value need not be.
\<close>

definition importData :: "Document option \<Rightarrow> storage \<Rightarrow> bool \<times> storage" where
  "importData parsed st =
     (case parsed of
        None \<Rightarrow> (False, st)
      | Some data \<Rightarrow>
          (let st1 = (case doc_users data of None \<Rightarrow> st | Some users \<Rightarrow> userStorage_save users st);
               st2 = (case doc_products data of None \<Rightarrow> st1
                      | Some products \<Rightarrow> productStorage_save products st1);
               st3 = (case doc_sales data of None \<Rightarrow> st2 | Some sales \<Rightarrow> salesStorage_save sales st2);
               st4 = (case doc_settings data of None \<Rightarrow> st3
                      | Some settings \<Rightarrow>
                          if truthy settings then settingsStorage_save settings st3 else st3)
           in (True, st4)))"

section \<open>Sales report\<close>

text \<open>
  A JavaScript \<open>Map\<close> iterates in insertion order and \<open>set\<close> on a present key keeps the
  key's position, so it is an association list with one entry per key.  Updating the
  object that \<open>get\<close> returned in place is \<open>Map_set\<close> on its key.
\<close>

definition Map_get :: "'k \<Rightarrow> ('k \<times> 'v) list \<Rightarrow> 'v option" where
  "Map_get k m = map_of m k"

fun Map_set :: "'k \<Rightarrow> 'v \<Rightarrow> ('k \<times> 'v) list \<Rightarrow> ('k \<times> 'v) list" where
  "Map_set k v [] = [(k, v)]"
| "Map_set k v ((k', v') # m) =
     (if k' = k then (k', v) # m else (k', v') # Map_set k v m)"

text \<open>
  \<open>Array.prototype.sort\<close> with a comparator is stable: an element goes before another
  when the comparator is negative, and elements that compare equal keep their order.
  Insertion from the right computes that order.
\<close>

fun insert_by :: "('a \<Rightarrow> 'a \<Rightarrow> number) \<Rightarrow> 'a \<Rightarrow> 'a list \<Rightarrow> 'a list" where
  "insert_by cmp x [] = [x]"
| "insert_by cmp x (y # ys) =
     (if cmp x y \<le> 0 then x # y # ys else y # insert_by cmp x ys)"

definition Array_sort :: "('a \<Rightarrow> 'a \<Rightarrow> number) \<Rightarrow> 'a list \<Rightarrow> 'a list" where
  "Array_sort cmp xs = foldr (insert_by cmp) xs []"

record ProductSales =
  ps_name :: string
  ps_quantity :: number
  ps_revenue :: number

record TopProduct =
  tp_productId :: string
  tp_productName :: string
  tp_quantity :: number
  tp_revenue :: number

record DailyData =
  dd_sales :: number
  dd_transactions :: number
  dd_items :: number

record DailyRow =
  dr_date :: string
  dr_sales :: number
  dr_transactions :: number
  dr_items :: number

record PaymentData =
  pd_count :: number
  pd_total :: number

record PaymentRow =
  pr_method :: paymentMethod
  pr_count :: number
  pr_total :: number

record ReportData =
  rd_totalSales :: number
  rd_totalTransactions :: number
  rd_totalItems :: number
  rd_averageTransaction :: number
  rd_topProducts :: "TopProduct list"
  rd_dailyBreakdown :: "DailyRow list"
  rd_paymentMethods :: "PaymentRow list"

text \<open>
  The body of the inner loop over line items.  \<open>product?.name || item.name\<close> takes the
  line item's name when no product has the id and also when the product's name is the
  empty string, which is falsy.
\<close>

definition productSales_item ::
    "Product list \<Rightarrow> CartItem \<Rightarrow> (string \<times> ProductSales) list \<Rightarrow> (string \<times> ProductSales) list" where
  "productSales_item products item productSales =
     (let existing = Map_get (ci_productId item) productSales;
          product = find (\<lambda>p. p_id p = ci_productId item) products
      in case existing of
           Some e \<Rightarrow>
             Map_set (ci_productId item)
               (e\<lparr>ps_quantity := ps_quantity e + ci_quantity item,
                  ps_revenue := ps_revenue e + ci_total item\<rparr>) productSales
         | None \<Rightarrow>
             Map_set (ci_productId item)
               \<lparr>ps_name = (case product of
                             None \<Rightarrow> ci_name item
                           | Some p \<Rightarrow> if p_name p \<noteq> [] then p_name p else ci_name item),
                ps_quantity = ci_quantity item,
                ps_revenue = ci_total item\<rparr> productSales)"

definition productSales_of :: "Product list \<Rightarrow> Sale list \<Rightarrow> (string \<times> ProductSales) list" where
  "productSales_of products sales =
     fold (\<lambda>sale productSales. fold (productSales_item products) (s_items sale) productSales)
       sales []"

definition topProducts_of :: "Product list \<Rightarrow> Sale list \<Rightarrow> TopProduct list" where
  "topProducts_of products sales =
     take 10
       (Array_sort (\<lambda>a b. tp_revenue b - tp_revenue a)
          (map (\<lambda>(productId, data).
                  \<lparr>tp_productId = productId, tp_productName = ps_name data,
                   tp_quantity = ps_quantity data, tp_revenue = ps_revenue data\<rparr>)
             (productSales_of products sales)))"

definition dailyData_sale :: "Sale \<Rightarrow> (string \<times> DailyData) list \<Rightarrow> (string \<times> DailyData) list" where
  "dailyData_sale sale dailyData =
     (let existing = Map_get (s_date sale) dailyData;
          itemCount = foldl (\<lambda>sum item. double_add sum (ci_quantity item)) 0 (s_items sale)
      in case existing of
           Some e \<Rightarrow>
             Map_set (s_date sale)
               (e\<lparr>dd_sales := double_add (dd_sales e) (s_total sale),
                  dd_transactions := double_add (dd_transactions e) 1,
                  dd_items := double_add (dd_items e) itemCount\<rparr>) dailyData
         | None \<Rightarrow>
             Map_set (s_date sale)
               \<lparr>dd_sales = s_total sale, dd_transactions = 1, dd_items = itemCount\<rparr> dailyData)"

text \<open>
  \<open>localeCompare\<close> depends on the host's collation, so the comparator is a parameter.
\<close>

definition dailyBreakdown_of :: "(string \<Rightarrow> string \<Rightarrow> number) \<Rightarrow> Sale list \<Rightarrow> DailyRow list" where
  "dailyBreakdown_of localeCompare sales =
     Array_sort (\<lambda>a b. localeCompare (dr_date a) (dr_date b))
       (map (\<lambda>(date, data).
               \<lparr>dr_date = date, dr_sales = dd_sales data,
                dr_transactions = dd_transactions data, dr_items = dd_items data\<rparr>)
          (fold dailyData_sale sales []))"

definition paymentData_sale ::
    "Sale \<Rightarrow> (paymentMethod \<times> PaymentData) list \<Rightarrow> (paymentMethod \<times> PaymentData) list" where
  "paymentData_sale sale paymentData =
     (let existing = Map_get (s_paymentMethod sale) paymentData
      in case existing of
           Some e \<Rightarrow>
             Map_set (s_paymentMethod sale)
               (e\<lparr>pd_count := double_add (pd_count e) 1,
                  pd_total := double_add (pd_total e) (s_total sale)\<rparr>) paymentData
         | None \<Rightarrow>
             Map_set (s_paymentMethod sale) \<lparr>pd_count = 1, pd_total = s_total sale\<rparr> paymentData)"

definition paymentMethods_of :: "Sale list \<Rightarrow> PaymentRow list" where
  "paymentMethods_of sales =
     map (\<lambda>(method, data). \<lparr>pr_method = method, pr_count = pd_count data, pr_total = pd_total data\<rparr>)
       (fold paymentData_sale sales [])"

datatype reportPeriod = rp_today | rp_week | rp_month | rp_custom

text \<open>
  \<open>generateReport\<close> of the reports page.  \<open>start\<close> and \<open>end'\<close> are the two dates that
  \<open>getDateRange\<close> returns; the result is \<open>None\<close> when the function returns early without
  a report, and otherwise the value handed to \<open>setReportData\<close>.
\<close>

definition generateReport ::
    "reportPeriod \<Rightarrow> string \<Rightarrow> string \<Rightarrow> (string \<Rightarrow> string \<Rightarrow> number) \<Rightarrow> storage
      \<Rightarrow> ReportData option" where
  "generateReport reportPeriod start end' localeCompare st =
     (if reportPeriod = rp_custom \<and> (start = [] \<or> end' = []) then None
      else
        (let sales = getByDateRange start end' st;
             products = productStorage_getAll st;
             totalSales = foldl (\<lambda>sum sale. double_add sum (s_total sale)) 0 sales;
             totalTransactions = of_nat (length sales);
             totalItems =
               foldl (\<lambda>sum sale.
                        double_add sum
                          (foldl (\<lambda>itemSum item. double_add itemSum (ci_quantity item)) 0
                             (s_items sale)))
                 0 sales;
             averageTransaction =
               (if totalTransactions > 0 then double_div totalSales totalTransactions else 0)
         in Some \<lparr>rd_totalSales = totalSales,
                  rd_totalTransactions = totalTransactions,
                  rd_totalItems = totalItems,
                  rd_averageTransaction = averageTransaction,
                  rd_topProducts = topProducts_of products sales,
                  rd_dailyBreakdown = dailyBreakdown_of localeCompare sales,
                  rd_paymentMethods = paymentMethods_of sales\<rparr>))"

section \<open>Specification-level notions and sample data\<close>

text \<open>The stock invariant of the product collection.\<close>

definition stock_nonneg :: "storage \<Rightarrow> bool" where
  "stock_nonneg st = list_all (\<lambda>p. 0 \<le> p_stock p) (productStorage_getAll st)"

text \<open>Sample data on which the theorems below are instantiated.\<close>

definition demo_users :: "User list" where
  "demo_users =
     [\<lparr>u_id = ''u1'', u_username = ''admin'', u_password = ''admin123'', u_role = admin,
       u_createdAt = ''2024-01-01T00:00:00.000Z'', u_isActive = True\<rparr>,
      \<lparr>u_id = ''u2'', u_username = ''cashier'', u_password = ''cashier123'', u_role = cashier,
       u_createdAt = ''2024-01-01T00:00:00.000Z'', u_isActive = False\<rparr>]"

definition demo_storage :: storage where
  "demo_storage = empty_storage\<lparr>pos_users := Some demo_users\<rparr>"

definition mkProduct :: "string \<Rightarrow> string \<Rightarrow> number \<Rightarrow> Product" where
  "mkProduct ident name stock =
     \<lparr>p_id = ident, p_name = name, p_code = ident, p_category = ''Beverages'', p_price = 25,
      p_stock = stock, p_minStock = 1, p_variants = None, p_isActive = True,
      p_createdAt = ''2024-01-01T00:00:00.000Z'', p_updatedAt = ''2024-01-01T00:00:00.000Z''\<rparr>"

definition demo_products :: "Product list" where
  "demo_products = [mkProduct ''p1'' ''Cola'' 5, mkProduct ''p2'' ''Tea'' 0]"

definition demo_shop :: storage where
  "demo_shop = empty_storage\<lparr>pos_products := Some demo_products\<rparr>"

definition mkItem :: "string \<Rightarrow> string \<Rightarrow> number \<Rightarrow> number \<Rightarrow> CartItem" where
  "mkItem ident name price quantity =
     \<lparr>ci_productId = ident, ci_variantId = None, ci_name = name, ci_price = price,
      ci_quantity = quantity, ci_total = price * quantity\<rparr>"

definition mkSale :: "string \<Rightarrow> string \<Rightarrow> CartItem list \<Rightarrow> number \<Rightarrow> Sale" where
  "mkSale ident date items amount =
     \<lparr>s_id = ident, s_items = items, s_subtotal = amount, s_tax = 0, s_discount = 0,
      s_total = amount, s_paymentMethod = pm_cash, s_amountPaid = amount, s_change = 0,
      s_cashierId = ''u2'', s_cashierName = ''cashier'', s_receiptPrinted = False,
      s_timestamp = date @ ''T08:00:00.000Z'', s_date = date\<rparr>"

definition demo_sales :: "Sale list" where
  "demo_sales =
     [mkSale ''s1'' ''2024-01-02'' [mkItem ''p1'' ''Cola'' 25 2, mkItem ''p2'' ''Tea'' 20 1] 70,
      mkSale ''s2'' ''2024-01-01'' [mkItem ''p2'' ''Tea'' 20 3] 60,
      mkSale ''s3'' ''2024-01-02'' [mkItem ''p1'' ''Cola'' 25 1] 25]"

definition demo_ledger :: storage where
  "demo_ledger = demo_shop\<lparr>pos_sales := Some demo_sales\<rparr>"

definition emptyUserPatch :: UserPatch where
  "emptyUserPatch =
     \<lparr>pu_id = None, pu_username = None, pu_password = None, pu_role = None,
      pu_createdAt = None, pu_isActive = None\<rparr>"

definition emptyProductPatch :: ProductPatch where
  "emptyProductPatch =
     \<lparr>pp_id = None, pp_name = None, pp_code = None, pp_category = None, pp_price = None,
      pp_stock = None, pp_minStock = None, pp_variants = None, pp_isActive = None,
      pp_createdAt = None, pp_updatedAt = None\<rparr>"

definition demo_full :: storage where
  "demo_full = demo_ledger\<lparr>pos_users := Some demo_users\<rparr>"

definition users_only_document :: Document where
  "users_only_document =
     \<lparr>doc_users = Some [], doc_products = None, doc_sales = None, doc_settings = None,
      doc_exportDate = None\<rparr>"

text \<open>The stock of the first product with the given id, if there is one.\<close>

definition stock_of :: "string \<Rightarrow> storage \<Rightarrow> number option" where
  "stock_of ident st = map_option p_stock (find (\<lambda>p. p_id p = ident) (productStorage_getAll st))"

text \<open>
  One subtraction as \<open>updateStock\<close> applies it to a stock level: a decrement that would
  go below zero is skipped.
\<close>

definition subtract_if_enough :: "number \<Rightarrow> number \<Rightarrow> number" where
  "subtract_if_enough s q = (if s - q < 0 then s else s - q)"

definition demo_draft :: Sale where
  "demo_draft = mkSale [] [] [mkItem ''p1'' ''Cola'' 25 3, mkItem ''p2'' ''Tea'' 20 1] 95"

text \<open>A comparator with the sign convention of \<open>localeCompare\<close>, ordering strings by code unit.\<close>

definition codeUnitCompare :: "string \<Rightarrow> string \<Rightarrow> number" where
  "codeUnitCompare a b = (if a < b then - 1 else if a = b then 0 else 1)"

text \<open>
  The grouping of line items in the words of the report's description: the product ids
  in order of first occurrence, and for each id the line items that carry it.
\<close>

definition first_occurrences :: "'a list \<Rightarrow> 'a list" where
  "first_occurrences xs = rev (remdups (rev xs))"









text \<open>
  The double-precision sum of a list from left to right, starting from its first element:
  what a map entry holds after it was created from the first value and each later value
  was added to it.
\<close>

fun double_sum :: "number list \<Rightarrow> number" where
  "double_sum [] = 0"
| "double_sum (x # xs) = foldl double_add x xs"

text \<open>The entry of the date map for the sales of one date, in ledger order.\<close>

definition itemCount_of :: "Sale \<Rightarrow> number" where
  "itemCount_of sale = foldl (\<lambda>sum item. double_add sum (ci_quantity item)) 0 (s_items sale)"

definition day_first :: "Sale \<Rightarrow> DailyData" where
  "day_first sale =
     \<lparr>dd_sales = s_total sale, dd_transactions = 1, dd_items = itemCount_of sale\<rparr>"

definition day_more :: "DailyData \<Rightarrow> Sale \<Rightarrow> DailyData" where
  "day_more e sale =
     e\<lparr>dd_sales := double_add (dd_sales e) (s_total sale),
       dd_transactions := double_add (dd_transactions e) 1,
       dd_items := double_add (dd_items e) (itemCount_of sale)\<rparr>"

definition day_entry :: "Sale list \<Rightarrow> string \<Rightarrow> DailyData" where
  "day_entry sales date =
     (let group = filter (\<lambda>s. s_date s = date) sales
      in foldl day_more (day_first (hd group)) (tl group))"

text \<open>
  The doubles nearest to 1.12 and 8.96, and the doubles that their sums round to.
\<close>

definition dbl_1_12 :: number where
  "dbl_1_12 = 1261007895663739 / 1125899906842624"

definition dbl_8_96 :: number where
  "dbl_8_96 = 1261007895663739 / 140737488355328"

definition dbl_2_24 :: number where
  "dbl_2_24 = 1261007895663739 / 562949953421312"

definition dbl_10_08 :: number where
  "dbl_10_08 = 2837267765243413 / 281474976710656"

definition dbl_11_2_below :: number where
  "dbl_11_2_below = 6305039478318695 / 562949953421312"

definition dbl_11_2_above :: number where
  "dbl_11_2_above = 788129934789837 / 70368744177664"

text \<open>
  Three sales with the totals 1.12, 1.12 and 8.96, the second on another day than the
  first and the third.
\<close>

definition demo_decimal_sales :: "Sale list" where
  "demo_decimal_sales =
     [mkSale ''d1'' ''2024-02-01'' [] dbl_1_12,
      mkSale ''d2'' ''2024-02-02'' [] dbl_1_12,
      mkSale ''d3'' ''2024-02-01'' [] dbl_8_96]"

definition demo_decimal_ledger :: storage where
  "demo_decimal_ledger = empty_storage\<lparr>pos_sales := Some demo_decimal_sales\<rparr>"

definition demo_settings :: json where
  "demo_settings =
     JObj [(''storeName'', JStr ''Corner Shop''),
           (''storeAddress'', JStr ''1 Market Road''),
           (''storePhone'', JStr ''+63 2 555 0100''),
           (''storeEmail'', JStr ''shop@example.org''),
           (''taxRate'', JNum (8 / 100)),
           (''currency'', JStr ''PHP''),
           (''receiptFooter'', JStr ''Come again'')]"

definition demo_configured :: storage where
  "demo_configured = demo_full\<lparr>pos_settings := Some demo_settings\<rparr>"

section \<open>Auxiliary facts about the list primitives\<close>

lemma find_None_iff_all: "(find P xs = None) = (\<forall>x\<in>set xs. \<not> P x)"
  by (induction xs) auto

lemma find_Some_first: "find P xs = Some x \<Longrightarrow> x \<in> set xs \<and> P x"
  by (induction xs) (auto split: if_splits)

lemma findIndex_first:
  "i < length xs \<Longrightarrow> P (xs ! i) \<Longrightarrow> \<forall>j<i. \<not> P (xs ! j) \<Longrightarrow> findIndex P xs = Some i"
proof (induction xs arbitrary: i)
  case Nil
  then show ?case by simp
next
  case (Cons x xs)
  show ?case
  proof (cases i)
    case 0
    with Cons.prems show ?thesis by simp
  next
    case (Suc k)
    with Cons.prems have "\<not> P x" by auto
    moreover have "findIndex P xs = Some k"
    proof (rule Cons.IH)
      show "k < length xs" using Cons.prems Suc by simp
      show "P (xs ! k)" using Cons.prems Suc by simp
      show "\<forall>j<k. \<not> P (xs ! j)"
      proof (intro allI impI)
        fix j assume "j < k"
        then have "Suc j < i" using Suc by simp
        with Cons.prems have "\<not> P ((x # xs) ! Suc j)" by blast
        then show "\<not> P (xs ! j)" by simp
      qed
    qed
    ultimately show ?thesis using Suc by simp
  qed
qed

lemma findIndex_Some:
  "findIndex P xs = Some i \<Longrightarrow> i < length xs \<and> P (xs ! i) \<and> (\<forall>j<i. \<not> P (xs ! j))"
proof (induction xs arbitrary: i)
  case Nil
  then show ?case by simp
next
  case (Cons x xs)
  show ?case
  proof (cases "P x")
    case True
    with Cons.prems show ?thesis by simp
  next
    case False
    with Cons.prems obtain k where k: "findIndex P xs = Some k" "i = Suc k"
      by auto
    from Cons.IH [OF k(1)] have ih: "k < length xs" "P (xs ! k)" "\<forall>j<k. \<not> P (xs ! j)"
      by auto
    have "\<forall>j<Suc k. \<not> P ((x # xs) ! j)"
    proof (intro allI impI)
      fix j assume "j < Suc k"
      then show "\<not> P ((x # xs) ! j)"
        using False ih(3) by (cases j) auto
    qed
    with ih k show ?thesis by simp
  qed
qed

lemma list_all_update:
  "list_all P xs \<Longrightarrow> P v \<Longrightarrow> list_all P (xs[i := v])"
  by (induction xs arbitrary: i) (auto split: nat.splits)



lemma demo_shop_products: "productStorage_getAll demo_shop = demo_products"
  by (simp add: demo_shop_def productStorage_getAll_def empty_storage_def)

lemma demo_ledger_sales: "salesStorage_getAll demo_ledger = demo_sales"
  by (simp add: demo_ledger_def salesStorage_getAll_def)

section \<open>Login lookup\<close>

text \<open>
  Claim C7.  \<open>findByCredentials\<close> returns a user exactly when some stored user has the
  given username, the given password and \<open>isActive\<close> true, and the user it returns is such
  a user.  In every other case (unknown username, wrong password, inactive account) the
  result is the one value \<open>None\<close>, the model of \<open>null\<close>.
\<close>

theorem findByCredentials_exact:
  "(findByCredentials username password st \<noteq> None \<longleftrightarrow>
      (\<exists>u \<in> set (userStorage_getAll st).
         u_username u = username \<and> u_password u = password \<and> u_isActive u))
   \<and> (case findByCredentials username password st of
        Some u \<Rightarrow> u \<in> set (userStorage_getAll st) \<and>
                  u_username u = username \<and> u_password u = password \<and> u_isActive u
      | None \<Rightarrow> \<forall>u \<in> set (userStorage_getAll st).
                  \<not> (u_username u = username \<and> u_password u = password \<and> u_isActive u))"
proof (cases "findByCredentials username password st")
  case None
  then have "find (\<lambda>u. u_username u = username \<and> u_password u = password \<and> u_isActive u)
               (userStorage_getAll st) = None"
    by (simp add: findByCredentials_def)
  then have "\<forall>u \<in> set (userStorage_getAll st).
               \<not> (u_username u = username \<and> u_password u = password \<and> u_isActive u)"
    by (simp only: find_None_iff_all)
  with None show ?thesis
    by auto
next
  case (Some u)
  then have "find (\<lambda>u. u_username u = username \<and> u_password u = password \<and> u_isActive u)
               (userStorage_getAll st) = Some u"
    by (simp add: findByCredentials_def)
  from find_Some_first [OF this] Some show ?thesis
    by auto
qed

theorem findByCredentials_exact_witness:
  "findByCredentials ''admin'' ''admin123'' demo_storage \<noteq> None
   \<and> findByCredentials ''admin'' ''wrong'' demo_storage = None
   \<and> findByCredentials ''nosuchuser'' ''x'' demo_storage = None
   \<and> findByCredentials ''cashier'' ''cashier123'' demo_storage = None"
  using findByCredentials_exact [of "''admin''" "''admin123''" demo_storage]
    findByCredentials_exact [of "''admin''" "''wrong''" demo_storage]
    findByCredentials_exact [of "''nosuchuser''" "''x''" demo_storage]
    findByCredentials_exact [of "''cashier''" "''cashier123''" demo_storage]
  by (simp add: demo_storage_def demo_users_def empty_storage_def userStorage_getAll_def)

section \<open>Daily summary\<close>



section \<open>Stock updates\<close>

lemma updateStock_stock_nonneg:
  "stock_nonneg st \<Longrightarrow> stock_nonneg (snd (updateStock ident quantity operation now st))"
  by (auto simp: stock_nonneg_def updateStock_def Let_def productStorage_save_def
      productStorage_getAll_def list_all_update split: option.splits)

text \<open>
  Claim C2.  Let \<open>i\<close> be the position of the first product with the given id, the one
  that \<open>updateStock\<close> addresses.  When the new stock (the current stock plus or minus the
  quantity, by direction) is negative, \<open>updateStock\<close> returns \<open>false\<close> and the storage is
  unchanged; otherwise it returns \<open>true\<close> and stores the collection in which that
  product carries the new stock (and the refreshed \<open>updatedAt\<close>) and nothing else differs.
  Consequently a collection without negative stock has none after \<open>updateStock\<close>.
\<close>

theorem updateStock_rejects_or_commits:
  assumes "i < length (productStorage_getAll st)"
    and "p_id (productStorage_getAll st ! i) = ident"
    and "\<forall>j<i. p_id (productStorage_getAll st ! j) \<noteq> ident"
  shows "(let products = productStorage_getAll st;
              newStock = (if operation = op_add then p_stock (products ! i) + quantity
                          else p_stock (products ! i) - quantity)
          in updateStock ident quantity operation now st =
               (if newStock < 0 then (False, st)
                else (True, st\<lparr>pos_products :=
                        Some (products[i := (products ! i)\<lparr>p_stock := newStock,
                                                          p_updatedAt := now\<rparr>])\<rparr>)))
         \<and> (stock_nonneg st \<longrightarrow>
              stock_nonneg (snd (updateStock ident quantity operation now st)))"
proof -
  let ?ps = "productStorage_getAll st"
  let ?new = "if operation = op_add then p_stock (?ps ! i) + quantity
              else p_stock (?ps ! i) - quantity"
  have "findIndex (\<lambda>p. p_id p = ident) ?ps = Some i"
    using assms by (intro findIndex_first) auto
  then have "updateStock ident quantity operation now st =
      (if ?new < 0 then (False, st)
       else (True, st\<lparr>pos_products :=
               Some (?ps[i := (?ps ! i)\<lparr>p_stock := ?new, p_updatedAt := now\<rparr>])\<rparr>))"
    by (simp add: updateStock_def Let_def productStorage_save_def)
  then show ?thesis
    using updateStock_stock_nonneg [of st ident quantity operation now]
    by (simp only: Let_def) blast
qed

theorem updateStock_rejects_or_commits_witness:
  "updateStock ''p1'' 6 op_subtract ''t'' demo_shop = (False, demo_shop)
   \<and> fst (updateStock ''p1'' 5 op_subtract ''t'' demo_shop)
   \<and> map p_stock (productStorage_getAll (snd (updateStock ''p1'' 5 op_subtract ''t'' demo_shop)))
       = [0, 0]
   \<and> stock_nonneg (snd (updateStock ''p1'' 5 op_subtract ''t'' demo_shop))"
proof -
  have i: "(0::nat) < length (productStorage_getAll demo_shop)"
    by (simp add: demo_shop_products demo_products_def)
  have p: "p_id (productStorage_getAll demo_shop ! 0) = ''p1''"
    by (simp add: demo_shop_products demo_products_def mkProduct_def)
  have f: "\<forall>j<(0::nat). p_id (productStorage_getAll demo_shop ! j) \<noteq> ''p1''"
    by simp
  have inv: "stock_nonneg demo_shop"
    by (simp add: stock_nonneg_def demo_shop_products demo_products_def mkProduct_def)
  have r: "updateStock ''p1'' 6 op_subtract ''t'' demo_shop = (False, demo_shop)"
    using updateStock_rejects_or_commits [OF i p f, of op_subtract 6 "''t''"]
    by (simp add: Let_def demo_shop_products demo_products_def mkProduct_def)
  have c: "updateStock ''p1'' 5 op_subtract ''t'' demo_shop =
      (True, demo_shop\<lparr>pos_products :=
         Some (demo_products[0 := (demo_products ! 0)\<lparr>p_stock := 0, p_updatedAt := ''t''\<rparr>])\<rparr>)"
    using updateStock_rejects_or_commits [OF i p f, of op_subtract 5 "''t''"]
    by (simp add: Let_def demo_shop_products demo_products_def mkProduct_def)
  have n: "stock_nonneg (snd (updateStock ''p1'' 5 op_subtract ''t'' demo_shop))"
    using updateStock_rejects_or_commits [OF i p f, of op_subtract 5 "''t''", THEN conjunct2] inv
    by blast
  show ?thesis
    using r c n
    by (simp add: productStorage_getAll_def demo_products_def mkProduct_def)
qed

section \<open>Settings defaults\<close>

text \<open>
  Claim C9, as amended.  When no settings document is stored, \<open>get\<close> returns the default
  document, whose \<open>taxRate\<close> is \<open>0.12\<close> and whose \<open>currency\<close> is \<open>PHP\<close>.  That document
  carries five fields: \<open>storeName\<close>, \<open>storeAddress\<close>, \<open>storePhone\<close>, \<open>taxRate\<close> and
  \<open>currency\<close>.
\<close>

theorem settingsStorage_get_default:
  "pos_settings st = None \<Longrightarrow>
     get_field ''taxRate'' (settingsStorage_get st) = Some (JNum (12 / 100))
   \<and> get_field ''currency'' (settingsStorage_get st) = Some (JStr ''PHP'')
   \<and> field_names (settingsStorage_get st) =
       [''storeName'', ''storeAddress'', ''storePhone'', ''taxRate'', ''currency'']"
  by (simp add: settingsStorage_get_def default_settings_def)

theorem settingsStorage_get_default_witness:
  "pos_settings empty_storage = None
   \<and> get_field ''taxRate'' (settingsStorage_get empty_storage) = Some (JNum (12 / 100))
   \<and> get_field ''currency'' (settingsStorage_get empty_storage) = Some (JStr ''PHP'')
   \<and> length (field_names (settingsStorage_get empty_storage)) = 5"
proof -
  have h: "pos_settings empty_storage = None"
    by (simp add: empty_storage_def)
  from settingsStorage_get_default [OF h] h show ?thesis
    by simp
qed

text \<open>
  The claim as stated gives the settings document seven fields.  The default document
  has no \<open>storeEmail\<close> and no \<open>receiptFooter\<close>: reading them yields \<open>undefined\<close>.
\<close>

theorem settingsStorage_get_default_five_fields:
  "get_field ''storeEmail'' (settingsStorage_get empty_storage) = None
   \<and> get_field ''receiptFooter'' (settingsStorage_get empty_storage) = None"
  by (simp add: settingsStorage_get_def default_settings_def empty_storage_def)

section \<open>Export and import\<close>

lemma truthy_settingsStorage_get: "truthy (settingsStorage_get st)"
  by (simp add: settingsStorage_get_def default_settings_def split: option.splits)

text \<open>
  Claim C4.  Importing, into any storage, the document that \<open>exportData\<close> builds from a
  storage \<open>st\<close> succeeds and reproduces the users, products and sales of \<open>st\<close> (as lists,
  hence as sets) and its settings: every stored collection and every stored (truthy)
  settings document of \<open>st\<close> is stored again, an unset collection is stored as the empty
  list, and unset or falsy settings as the default document.  For every import document,
  a key that the document does not have leaves the corresponding storage entry as it was.
\<close>

theorem export_import_round_trip:
  "(let st' = snd (importData (Some (exportData now st)) st0) in
      fst (importData (Some (exportData now st)) st0)
      \<and> userStorage_getAll st' = userStorage_getAll st
      \<and> productStorage_getAll st' = productStorage_getAll st
      \<and> salesStorage_getAll st' = salesStorage_getAll st
      \<and> settingsStorage_get st' = settingsStorage_get st
      \<and> set (userStorage_getAll st') = set (userStorage_getAll st)
      \<and> set (productStorage_getAll st') = set (productStorage_getAll st)
      \<and> set (salesStorage_getAll st') = set (salesStorage_getAll st)
      \<and> (\<forall>users. pos_users st = Some users \<longrightarrow> pos_users st' = Some users)
      \<and> (\<forall>products. pos_products st = Some products \<longrightarrow> pos_products st' = Some products)
      \<and> (\<forall>sales. pos_sales st = Some sales \<longrightarrow> pos_sales st' = Some sales)
      \<and> (\<forall>settings. pos_settings st = Some settings \<and> truthy settings \<longrightarrow>
            pos_settings st' = Some settings \<and> settingsStorage_get st' = settings)
      \<and> (pos_users st = None \<longrightarrow> pos_users st' = Some [])
      \<and> (pos_products st = None \<longrightarrow> pos_products st' = Some [])
      \<and> (pos_sales st = None \<longrightarrow> pos_sales st' = Some [])
      \<and> (pos_settings st = None \<or> (\<exists>settings. pos_settings st = Some settings \<and> \<not> truthy settings)
            \<longrightarrow> pos_settings st' = Some default_settings))
   \<and> (let st' = snd (importData (Some d) st0) in
        (doc_users d = None \<longrightarrow> pos_users st' = pos_users st0)
      \<and> (doc_products d = None \<longrightarrow> pos_products st' = pos_products st0)
      \<and> (doc_sales d = None \<longrightarrow> pos_sales st' = pos_sales st0)
      \<and> (doc_settings d = None \<longrightarrow> pos_settings st' = pos_settings st0))"
proof -
  let ?st' = "snd (importData (Some (exportData now st)) st0)"
  have t: "truthy (settingsStorage_get st)"
    by (rule truthy_settingsStorage_get)
  have a: "?st' =
      \<lparr>pos_users = Some (userStorage_getAll st), pos_products = Some (productStorage_getAll st),
       pos_sales = Some (salesStorage_getAll st), pos_settings = Some (settingsStorage_get st)\<rparr>"
    using t
    by (simp add: importData_def exportData_def Let_def userStorage_save_def
        productStorage_save_def salesStorage_save_def settingsStorage_save_def)
  have b: "fst (importData (Some (exportData now st)) st0)"
    by (simp add: importData_def Let_def)
  have c: "settingsStorage_get ?st' = settingsStorage_get st"
    unfolding a using t by (simp add: settingsStorage_get_def)
  have lists: "userStorage_getAll ?st' = userStorage_getAll st"
    "productStorage_getAll ?st' = productStorage_getAll st"
    "salesStorage_getAll ?st' = salesStorage_getAll st"
    unfolding a
    by (simp_all add: userStorage_getAll_def productStorage_getAll_def salesStorage_getAll_def)
  have stored: "\<forall>users. pos_users st = Some users \<longrightarrow> pos_users ?st' = Some users"
    "\<forall>products. pos_products st = Some products \<longrightarrow> pos_products ?st' = Some products"
    "\<forall>sales. pos_sales st = Some sales \<longrightarrow> pos_sales ?st' = Some sales"
    "pos_users st = None \<longrightarrow> pos_users ?st' = Some []"
    "pos_products st = None \<longrightarrow> pos_products ?st' = Some []"
    "pos_sales st = None \<longrightarrow> pos_sales ?st' = Some []"
    unfolding a
    by (simp_all add: userStorage_getAll_def productStorage_getAll_def salesStorage_getAll_def)
  have kept: "\<forall>settings. pos_settings st = Some settings \<and> truthy settings \<longrightarrow>
      pos_settings ?st' = Some settings \<and> settingsStorage_get ?st' = settings"
    unfolding a by (simp add: settingsStorage_get_def)
  have dflt: "pos_settings st = None
        \<or> (\<exists>settings. pos_settings st = Some settings \<and> \<not> truthy settings)
      \<longrightarrow> pos_settings ?st' = Some default_settings"
    unfolding a by (auto simp: settingsStorage_get_def)
  have first: "(let st' = ?st' in
      fst (importData (Some (exportData now st)) st0)
      \<and> userStorage_getAll st' = userStorage_getAll st
      \<and> productStorage_getAll st' = productStorage_getAll st
      \<and> salesStorage_getAll st' = salesStorage_getAll st
      \<and> settingsStorage_get st' = settingsStorage_get st
      \<and> set (userStorage_getAll st') = set (userStorage_getAll st)
      \<and> set (productStorage_getAll st') = set (productStorage_getAll st)
      \<and> set (salesStorage_getAll st') = set (salesStorage_getAll st)
      \<and> (\<forall>users. pos_users st = Some users \<longrightarrow> pos_users st' = Some users)
      \<and> (\<forall>products. pos_products st = Some products \<longrightarrow> pos_products st' = Some products)
      \<and> (\<forall>sales. pos_sales st = Some sales \<longrightarrow> pos_sales st' = Some sales)
      \<and> (\<forall>settings. pos_settings st = Some settings \<and> truthy settings \<longrightarrow>
            pos_settings st' = Some settings \<and> settingsStorage_get st' = settings)
      \<and> (pos_users st = None \<longrightarrow> pos_users st' = Some [])
      \<and> (pos_products st = None \<longrightarrow> pos_products st' = Some [])
      \<and> (pos_sales st = None \<longrightarrow> pos_sales st' = Some [])
      \<and> (pos_settings st = None \<or> (\<exists>settings. pos_settings st = Some settings \<and> \<not> truthy settings)
            \<longrightarrow> pos_settings st' = Some default_settings))"
    unfolding Let_def
    using b c lists stored kept dflt
    by (intro conjI) simp_all
  have second: "(let st' = snd (importData (Some d) st0) in
        (doc_users d = None \<longrightarrow> pos_users st' = pos_users st0)
      \<and> (doc_products d = None \<longrightarrow> pos_products st' = pos_products st0)
      \<and> (doc_sales d = None \<longrightarrow> pos_sales st' = pos_sales st0)
      \<and> (doc_settings d = None \<longrightarrow> pos_settings st' = pos_settings st0))"
    by (simp add: importData_def Let_def userStorage_save_def
        productStorage_save_def salesStorage_save_def settingsStorage_save_def
        split: option.splits)
  from first second show ?thesis by (rule conjI)
qed

theorem export_import_round_trip_witness:
  "userStorage_getAll (snd (importData (Some (exportData ''t'' demo_configured)) empty_storage))
     = demo_users
   \<and> productStorage_getAll
       (snd (importData (Some (exportData ''t'' demo_configured)) empty_storage))
     = demo_products
   \<and> salesStorage_getAll (snd (importData (Some (exportData ''t'' demo_configured)) empty_storage))
     = demo_sales
   \<and> pos_settings (snd (importData (Some (exportData ''t'' demo_configured)) empty_storage))
     = Some demo_settings
   \<and> settingsStorage_get (snd (importData (Some (exportData ''t'' demo_configured)) empty_storage))
     = demo_settings
   \<and> get_field ''taxRate''
       (settingsStorage_get
          (snd (importData (Some (exportData ''t'' demo_configured)) empty_storage)))
     = Some (JNum (8 / 100))
   \<and> settingsStorage_get (snd (importData (Some (exportData ''t'' demo_full)) demo_configured))
     = default_settings
   \<and> doc_products users_only_document = None
   \<and> pos_products (snd (importData (Some users_only_document) demo_configured))
     = Some demo_products
   \<and> pos_sales (snd (importData (Some users_only_document) demo_configured)) = Some demo_sales
   \<and> pos_settings (snd (importData (Some users_only_document) demo_configured))
     = Some demo_settings
   \<and> pos_users (snd (importData (Some users_only_document) demo_configured)) = Some []"
proof -
  have u: "pos_users demo_configured = Some demo_users"
    by (simp add: demo_configured_def demo_full_def)
  have p: "pos_products demo_configured = Some demo_products"
    by (simp add: demo_configured_def demo_full_def demo_ledger_def demo_shop_def)
  have s: "pos_sales demo_configured = Some demo_sales"
    by (simp add: demo_configured_def demo_full_def demo_ledger_def)
  have g: "pos_settings demo_configured = Some demo_settings \<and> truthy demo_settings"
    by (simp add: demo_configured_def demo_settings_def)
  have n: "pos_settings demo_full = None"
    by (simp add: demo_full_def demo_ledger_def demo_shop_def empty_storage_def)
  have d: "doc_users users_only_document = Some []" "doc_products users_only_document = None"
    "doc_sales users_only_document = None" "doc_settings users_only_document = None"
    by (simp_all add: users_only_document_def)
  have i: "pos_users (snd (importData (Some users_only_document) demo_configured)) = Some []"
    by (simp add: importData_def Let_def d userStorage_save_def)
  have f: "get_field ''taxRate'' demo_settings = Some (JNum (8 / 100))"
    by (simp add: demo_settings_def)
  note a = export_import_round_trip [of "''t''" demo_configured empty_storage
      users_only_document, unfolded Let_def]
  note b = export_import_round_trip [of "''t''" demo_full demo_configured
      users_only_document, unfolded Let_def]
  from a u p s g
  have one: "pos_users (snd (importData (Some (exportData ''t'' demo_configured)) empty_storage))
        = Some demo_users"
    "pos_products (snd (importData (Some (exportData ''t'' demo_configured)) empty_storage))
        = Some demo_products"
    "pos_sales (snd (importData (Some (exportData ''t'' demo_configured)) empty_storage))
        = Some demo_sales"
    "pos_settings (snd (importData (Some (exportData ''t'' demo_configured)) empty_storage))
        = Some demo_settings"
    "settingsStorage_get (snd (importData (Some (exportData ''t'' demo_configured)) empty_storage))
        = demo_settings"
    by blast+
  from b n have two:
    "pos_settings (snd (importData (Some (exportData ''t'' demo_full)) demo_configured))
        = Some default_settings"
    by blast
  from b d u p s g have three:
    "pos_products (snd (importData (Some users_only_document) demo_configured))
       = Some demo_products"
    "pos_sales (snd (importData (Some users_only_document) demo_configured)) = Some demo_sales"
    "pos_settings (snd (importData (Some users_only_document) demo_configured))
       = Some demo_settings"
    by simp_all
  show ?thesis
    using one two three i d(2) f
    by (simp add: userStorage_getAll_def productStorage_getAll_def salesStorage_getAll_def
        settingsStorage_get_def default_settings_def)
qed

section \<open>Partial updates\<close>

text \<open>
  Claim C10, as amended.  Let \<open>i\<close> be the position of the first user with the given id,
  and \<open>k\<close> that of the first product with the given id.  \<open>userStorage.update\<close> returns
  \<open>true\<close> and replaces that user by the record in which every field of the patch,
  \<open>id\<close> and \<open>createdAt\<close> included, has overwritten the stored one.
  \<open>productStorage.update\<close> does the same for every field of the patch except
  \<open>updatedAt\<close>, which is always set to the current time.
\<close>

theorem update_merges_patch:
  "(i < length (userStorage_getAll st) \<and> u_id (userStorage_getAll st ! i) = ident
      \<and> (\<forall>j<i. u_id (userStorage_getAll st ! j) \<noteq> ident) \<longrightarrow>
      (let users = userStorage_getAll st; u = users ! i in
       userStorage_update ident updates st =
         (True, st\<lparr>pos_users := Some (users[i :=
            \<lparr>u_id = (case pu_id updates of None \<Rightarrow> u_id u | Some v \<Rightarrow> v),
             u_username = (case pu_username updates of None \<Rightarrow> u_username u | Some v \<Rightarrow> v),
             u_password = (case pu_password updates of None \<Rightarrow> u_password u | Some v \<Rightarrow> v),
             u_role = (case pu_role updates of None \<Rightarrow> u_role u | Some v \<Rightarrow> v),
             u_createdAt = (case pu_createdAt updates of None \<Rightarrow> u_createdAt u | Some v \<Rightarrow> v),
             u_isActive = (case pu_isActive updates of None \<Rightarrow> u_isActive u | Some v \<Rightarrow> v)\<rparr>])\<rparr>)))
   \<and> (k < length (productStorage_getAll st) \<and> p_id (productStorage_getAll st ! k) = ident
      \<and> (\<forall>j<k. p_id (productStorage_getAll st ! j) \<noteq> ident) \<longrightarrow>
      (let products = productStorage_getAll st; p = products ! k in
       productStorage_update ident patch now st =
         (True, st\<lparr>pos_products := Some (products[k :=
            \<lparr>p_id = (case pp_id patch of None \<Rightarrow> p_id p | Some v \<Rightarrow> v),
             p_name = (case pp_name patch of None \<Rightarrow> p_name p | Some v \<Rightarrow> v),
             p_code = (case pp_code patch of None \<Rightarrow> p_code p | Some v \<Rightarrow> v),
             p_category = (case pp_category patch of None \<Rightarrow> p_category p | Some v \<Rightarrow> v),
             p_price = (case pp_price patch of None \<Rightarrow> p_price p | Some v \<Rightarrow> v),
             p_stock = (case pp_stock patch of None \<Rightarrow> p_stock p | Some v \<Rightarrow> v),
             p_minStock = (case pp_minStock patch of None \<Rightarrow> p_minStock p | Some v \<Rightarrow> v),
             p_variants = (case pp_variants patch of None \<Rightarrow> p_variants p | Some v \<Rightarrow> Some v),
             p_isActive = (case pp_isActive patch of None \<Rightarrow> p_isActive p | Some v \<Rightarrow> v),
             p_createdAt = (case pp_createdAt patch of None \<Rightarrow> p_createdAt p | Some v \<Rightarrow> v),
             p_updatedAt = now\<rparr>])\<rparr>)))"
proof (intro conjI impI)
  assume "i < length (userStorage_getAll st) \<and> u_id (userStorage_getAll st ! i) = ident
      \<and> (\<forall>j<i. u_id (userStorage_getAll st ! j) \<noteq> ident)"
  then have "findIndex (\<lambda>u. u_id u = ident) (userStorage_getAll st) = Some i"
    by (intro findIndex_first) auto
  then show "let users = userStorage_getAll st; u = users ! i in
       userStorage_update ident updates st =
         (True, st\<lparr>pos_users := Some (users[i :=
            \<lparr>u_id = (case pu_id updates of None \<Rightarrow> u_id u | Some v \<Rightarrow> v),
             u_username = (case pu_username updates of None \<Rightarrow> u_username u | Some v \<Rightarrow> v),
             u_password = (case pu_password updates of None \<Rightarrow> u_password u | Some v \<Rightarrow> v),
             u_role = (case pu_role updates of None \<Rightarrow> u_role u | Some v \<Rightarrow> v),
             u_createdAt = (case pu_createdAt updates of None \<Rightarrow> u_createdAt u | Some v \<Rightarrow> v),
             u_isActive = (case pu_isActive updates of None \<Rightarrow> u_isActive u | Some v \<Rightarrow> v)\<rparr>])\<rparr>)"
    by (simp add: userStorage_update_def Let_def userStorage_save_def spreadUser_def orElse_def)
next
  assume "k < length (productStorage_getAll st) \<and> p_id (productStorage_getAll st ! k) = ident
      \<and> (\<forall>j<k. p_id (productStorage_getAll st ! j) \<noteq> ident)"
  then have "findIndex (\<lambda>p. p_id p = ident) (productStorage_getAll st) = Some k"
    by (intro findIndex_first) auto
  then show "let products = productStorage_getAll st; p = products ! k in
       productStorage_update ident patch now st =
         (True, st\<lparr>pos_products := Some (products[k :=
            \<lparr>p_id = (case pp_id patch of None \<Rightarrow> p_id p | Some v \<Rightarrow> v),
             p_name = (case pp_name patch of None \<Rightarrow> p_name p | Some v \<Rightarrow> v),
             p_code = (case pp_code patch of None \<Rightarrow> p_code p | Some v \<Rightarrow> v),
             p_category = (case pp_category patch of None \<Rightarrow> p_category p | Some v \<Rightarrow> v),
             p_price = (case pp_price patch of None \<Rightarrow> p_price p | Some v \<Rightarrow> v),
             p_stock = (case pp_stock patch of None \<Rightarrow> p_stock p | Some v \<Rightarrow> v),
             p_minStock = (case pp_minStock patch of None \<Rightarrow> p_minStock p | Some v \<Rightarrow> v),
             p_variants = (case pp_variants patch of None \<Rightarrow> p_variants p | Some v \<Rightarrow> Some v),
             p_isActive = (case pp_isActive patch of None \<Rightarrow> p_isActive p | Some v \<Rightarrow> v),
             p_createdAt = (case pp_createdAt patch of None \<Rightarrow> p_createdAt p | Some v \<Rightarrow> v),
             p_updatedAt = now\<rparr>])\<rparr>)"
    by (simp add: productStorage_update_def Let_def productStorage_save_def spreadProduct_def
        orElse_def)
qed

theorem update_merges_patch_witness:
  "map u_id (userStorage_getAll (snd
      (userStorage_update ''u1'' (emptyUserPatch\<lparr>pu_id := Some ''root'',
          pu_createdAt := Some ''1999-12-31''\<rparr>) demo_storage))) = [''root'', ''u2'']
   \<and> map u_createdAt (userStorage_getAll (snd
      (userStorage_update ''u1'' (emptyUserPatch\<lparr>pu_id := Some ''root'',
          pu_createdAt := Some ''1999-12-31''\<rparr>) demo_storage)))
       = [''1999-12-31'', ''2024-01-01T00:00:00.000Z'']
   \<and> map p_id (productStorage_getAll (snd
      (productStorage_update ''p2'' (emptyProductPatch\<lparr>pp_id := Some ''p9'',
          pp_createdAt := Some ''1999-12-31''\<rparr>) ''n'' demo_shop))) = [''p1'', ''p9'']
   \<and> map p_updatedAt (productStorage_getAll (snd
      (productStorage_update ''p2'' (emptyProductPatch\<lparr>pp_id := Some ''p9'',
          pp_createdAt := Some ''1999-12-31''\<rparr>) ''n'' demo_shop)))
       = [''2024-01-01T00:00:00.000Z'', ''n'']"
proof -
  have u: "userStorage_getAll demo_storage = demo_users"
    by (simp add: demo_storage_def userStorage_getAll_def)
  have hu: "(0::nat) < length (userStorage_getAll demo_storage)
      \<and> u_id (userStorage_getAll demo_storage ! 0) = ''u1''
      \<and> (\<forall>j<(0::nat). u_id (userStorage_getAll demo_storage ! j) \<noteq> ''u1'')"
    by (simp add: u demo_users_def)
  have hp: "(1::nat) < length (productStorage_getAll demo_shop)
      \<and> p_id (productStorage_getAll demo_shop ! 1) = ''p2''
      \<and> (\<forall>j<(1::nat). p_id (productStorage_getAll demo_shop ! j) \<noteq> ''p2'')"
    by (simp add: demo_shop_products demo_products_def mkProduct_def)
  note t = update_merges_patch [of 0 demo_storage "''u1''"
      "emptyUserPatch\<lparr>pu_id := Some ''root'', pu_createdAt := Some ''1999-12-31''\<rparr>"
      1 "emptyProductPatch" "''n''"]
    update_merges_patch [of 0 demo_shop "''p2''"
      "emptyUserPatch" 1
      "emptyProductPatch\<lparr>pp_id := Some ''p9'', pp_createdAt := Some ''1999-12-31''\<rparr>" "''n''"]
  from t(1) [THEN conjunct1, rule_format, OF hu] t(2) [THEN conjunct2, rule_format, OF hp]
  have e: "userStorage_update ''u1''
        (emptyUserPatch\<lparr>pu_id := Some ''root'', pu_createdAt := Some ''1999-12-31''\<rparr>) demo_storage
      = (True, demo_storage\<lparr>pos_users := Some [(demo_users ! 0)\<lparr>u_id := ''root'',
           u_createdAt := ''1999-12-31''\<rparr>, demo_users ! 1]\<rparr>)"
    "productStorage_update ''p2''
        (emptyProductPatch\<lparr>pp_id := Some ''p9'', pp_createdAt := Some ''1999-12-31''\<rparr>) ''n'' demo_shop
      = (True, demo_shop\<lparr>pos_products := Some [demo_products ! 0,
           (demo_products ! 1)\<lparr>p_id := ''p9'', p_createdAt := ''1999-12-31'',
              p_updatedAt := ''n''\<rparr>]\<rparr>)"
    by (simp_all add: Let_def u demo_users_def demo_shop_products demo_products_def mkProduct_def
        emptyUserPatch_def emptyProductPatch_def)
  show ?thesis
    unfolding e
    by (simp add: userStorage_getAll_def productStorage_getAll_def demo_users_def
        demo_products_def mkProduct_def)
qed

text \<open>
  The claim as stated has every field of the patch merged.  A product patch that carries
  \<open>updatedAt\<close> does not set it: the stored value is the clock reading.
\<close>

theorem productStorage_update_overrides_updatedAt:
  "map p_updatedAt (productStorage_getAll (snd
      (productStorage_update ''p1'' (emptyProductPatch\<lparr>pp_updatedAt := Some ''2030-01-01''\<rparr>)
         ''2024-06-01T09:00:00.000Z'' demo_shop)))
     = [''2024-06-01T09:00:00.000Z'', ''2024-01-01T00:00:00.000Z'']"
  by (simp add: productStorage_update_def demo_shop_def empty_storage_def demo_products_def
      mkProduct_def Let_def productStorage_save_def productStorage_getAll_def spreadProduct_def
      orElse_def emptyProductPatch_def)

section \<open>The stock invariant under the product operations\<close>

lemma list_all_filter_keep: "list_all P xs \<Longrightarrow> list_all P (filter Q xs)"
  by (induction xs) auto

lemma delete_stock_nonneg:
  "stock_nonneg st \<Longrightarrow> stock_nonneg (snd (productStorage_delete ident st))"
  by (simp add: stock_nonneg_def productStorage_delete_def Let_def productStorage_save_def
      productStorage_getAll_def list_all_filter_keep split: option.splits)

lemma add_stock_nonneg:
  "stock_nonneg st \<Longrightarrow> 0 \<le> p_stock product \<Longrightarrow>
     stock_nonneg (snd (productStorage_add product newId now st))"
  by (simp add: stock_nonneg_def productStorage_add_def Let_def productStorage_save_def
      productStorage_getAll_def split: option.splits)

lemma update_stock_nonneg:
  assumes "stock_nonneg st" and "\<forall>s. pp_stock updates = Some s \<longrightarrow> 0 \<le> s"
  shows "stock_nonneg (snd (productStorage_update ident updates now st))"
proof (cases "findIndex (\<lambda>p. p_id p = ident) (productStorage_getAll st)")
  case None
  with assms(1) show ?thesis
    by (simp add: productStorage_update_def)
next
  case (Some i)
  from findIndex_Some [OF Some] have i: "i < length (productStorage_getAll st)"
    by simp
  from assms(1) i have old: "0 \<le> p_stock (productStorage_getAll st ! i)"
    by (simp add: stock_nonneg_def list_all_length)
  have new: "0 \<le> p_stock ((spreadProduct (productStorage_getAll st ! i) updates)\<lparr>p_updatedAt := now\<rparr>)"
    using assms(2) old by (cases "pp_stock updates") (simp_all add: spreadProduct_def orElse_def)
  have "list_all (\<lambda>p. 0 \<le> p_stock p)
          ((productStorage_getAll st)[i := (spreadProduct (productStorage_getAll st ! i) updates)\<lparr>p_updatedAt := now\<rparr>])"
    using assms(1) new unfolding stock_nonneg_def by (rule list_all_update)
  then show ?thesis
    using Some
    by (simp add: productStorage_update_def Let_def stock_nonneg_def productStorage_save_def
        productStorage_getAll_def)
qed

lemma save_stock_nonneg:
  "list_all (\<lambda>p. 0 \<le> p_stock p) products \<Longrightarrow> stock_nonneg (productStorage_save products st)"
  by (simp add: stock_nonneg_def productStorage_save_def productStorage_getAll_def)

text \<open>
  Claim C3, as amended.  Starting from a collection in which every product has stock
  \<open>\<ge> 0\<close>, \<open>delete\<close> and \<open>updateStock\<close> leave every stored product with stock \<open>\<ge> 0\<close>.
  \<open>add\<close>, \<open>update\<close> and \<open>save\<close> store the stock they are given without a check, and
  leave every stored product with stock \<open>\<ge> 0\<close> when the product added, the stock in the
  patch, or every product of the saved list has stock \<open>\<ge> 0\<close>.
\<close>

theorem product_operations_stock_nonneg:
  assumes "stock_nonneg st"
  shows "stock_nonneg (snd (productStorage_delete ident st))
    \<and> stock_nonneg (snd (updateStock ident quantity operation now st))
    \<and> (0 \<le> p_stock product \<longrightarrow> stock_nonneg (snd (productStorage_add product newId now st)))
    \<and> ((\<forall>s. pp_stock updates = Some s \<longrightarrow> 0 \<le> s) \<longrightarrow>
          stock_nonneg (snd (productStorage_update ident updates now st)))
    \<and> (list_all (\<lambda>p. 0 \<le> p_stock p) products \<longrightarrow>
          stock_nonneg (productStorage_save products st))"
  using assms
  by (intro conjI impI delete_stock_nonneg updateStock_stock_nonneg add_stock_nonneg
      update_stock_nonneg save_stock_nonneg)

theorem product_operations_stock_nonneg_witness:
  "stock_nonneg demo_shop
   \<and> stock_nonneg (snd (productStorage_delete ''p1'' demo_shop))
   \<and> stock_nonneg (snd (updateStock ''p1'' 9 op_subtract ''n'' demo_shop))
   \<and> stock_nonneg (snd (productStorage_add (mkProduct [] ''Soap'' 4) ''p3'' ''n'' demo_shop))
   \<and> stock_nonneg (snd (productStorage_update ''p1''
         (emptyProductPatch\<lparr>pp_stock := Some 7\<rparr>) ''n'' demo_shop))
   \<and> stock_nonneg (productStorage_save [mkProduct ''p4'' ''Rice'' 3] demo_shop)"
proof -
  have inv: "stock_nonneg demo_shop"
    by (simp add: stock_nonneg_def demo_shop_products demo_products_def mkProduct_def)
  have a: "0 \<le> p_stock (mkProduct [] ''Soap'' 4)"
    by (simp add: mkProduct_def)
  have u: "\<forall>s. pp_stock (emptyProductPatch\<lparr>pp_stock := Some 7\<rparr>) = Some s \<longrightarrow> 0 \<le> s"
    by simp
  have s: "list_all (\<lambda>p. 0 \<le> p_stock p) [mkProduct ''p4'' ''Rice'' 3]"
    by (simp add: mkProduct_def)
  from product_operations_stock_nonneg [OF inv, of "''p1''" 9 op_subtract "''n''"
      "mkProduct [] ''Soap'' 4" "''p3''" "emptyProductPatch\<lparr>pp_stock := Some 7\<rparr>"
      "[mkProduct ''p4'' ''Rice'' 3]"] inv a u s
  show ?thesis
    by blast
qed

text \<open>
  The claim as stated covers \<open>update\<close> with any patch.  A patch with stock \<open>-1\<close> is
  stored as it is.
\<close>

theorem productStorage_update_negative_stock:
  "stock_nonneg demo_shop
   \<and> map p_stock (productStorage_getAll (snd
        (productStorage_update ''p1'' (emptyProductPatch\<lparr>pp_stock := Some (- 1)\<rparr>) ''n'' demo_shop)))
       = [- 1, 0]
   \<and> \<not> stock_nonneg (snd
        (productStorage_update ''p1'' (emptyProductPatch\<lparr>pp_stock := Some (- 1)\<rparr>) ''n'' demo_shop))"
  by (simp add: stock_nonneg_def productStorage_update_def demo_shop_def empty_storage_def
      demo_products_def mkProduct_def Let_def productStorage_save_def productStorage_getAll_def
      spreadProduct_def orElse_def emptyProductPatch_def)

section \<open>Recording a sale\<close>

lemma findIndex_None_find: "findIndex P xs = None \<Longrightarrow> find P xs = None"
  by (induction xs) (auto split: if_splits)

lemma find_list_update:
  "i < length xs \<Longrightarrow> P x' = P (xs ! i) \<Longrightarrow>
     find P (xs[i := x']) = (if findIndex P xs = Some i then Some x' else find P xs)"
proof (induction xs arbitrary: i)
  case Nil
  then show ?case by simp
next
  case (Cons x xs)
  show ?case
  proof (cases i)
    case 0
    with Cons.prems show ?thesis by auto
  next
    case (Suc k)
    with Cons.prems have "k < length xs" "P x' = P (xs ! k)" by simp_all
    from Cons.IH [OF this] Suc show ?thesis by auto
  qed
qed

lemma findIndex_find: "findIndex P xs = Some i \<Longrightarrow> find P xs = Some (xs ! i)"
  by (induction xs arbitrary: i) (auto split: if_splits)

lemma updateStock_stock_of:
  "stock_of ident (snd (updateStock pid q op_subtract now st)) =
     (if ident = pid then map_option (\<lambda>s. subtract_if_enough s q) (stock_of ident st)
      else stock_of ident st)"
proof (cases "findIndex (\<lambda>p. p_id p = pid) (productStorage_getAll st)")
  case None
  then show ?thesis
    by (auto simp: updateStock_def stock_of_def dest: findIndex_None_find)
next
  case (Some i)
  let ?ps = "productStorage_getAll st"
  from findIndex_Some [OF Some] have i: "i < length ?ps" "p_id (?ps ! i) = pid"
    by simp_all
  show ?thesis
  proof (cases "p_stock (?ps ! i) - q < 0")
    case True
    then show ?thesis
      using Some findIndex_find [OF Some]
      by (simp add: updateStock_def Let_def stock_of_def subtract_if_enough_def)
  next
    case False
    let ?x = "(?ps ! i)\<lparr>p_stock := p_stock (?ps ! i) - q, p_updatedAt := now\<rparr>"
    have st': "snd (updateStock pid q op_subtract now st) = st\<lparr>pos_products := Some (?ps[i := ?x])\<rparr>"
      using Some False by (simp add: updateStock_def Let_def productStorage_save_def)
    have f: "find (\<lambda>p. p_id p = ident) (?ps[i := ?x]) =
        (if findIndex (\<lambda>p. p_id p = ident) ?ps = Some i then Some ?x
         else find (\<lambda>p. p_id p = ident) ?ps)"
      using i(1) by (intro find_list_update) simp_all
    show ?thesis
    proof (cases "ident = pid")
      case True
      with f Some False findIndex_find [OF Some] show ?thesis
        by (simp add: st' stock_of_def productStorage_getAll_def subtract_if_enough_def)
    next
      case False
      have "findIndex (\<lambda>p. p_id p = ident) ?ps \<noteq> Some i"
      proof
        assume "findIndex (\<lambda>p. p_id p = ident) ?ps = Some i"
        from findIndex_Some [OF this] i(2) False show False by simp
      qed
      with f False show ?thesis
        by (simp add: st' stock_of_def productStorage_getAll_def)
    qed
  qed
qed

lemma updateStock_other_stores:
  "pos_sales (snd (updateStock pid q operation now st)) = pos_sales st"
  "pos_users (snd (updateStock pid q operation now st)) = pos_users st"
  "pos_settings (snd (updateStock pid q operation now st)) = pos_settings st"
  by (simp_all add: updateStock_def Let_def productStorage_save_def split: option.splits)

lemma forEach_stock_of:
  "stock_of ident (updateStock_forEach items stamps i st) =
     map_option (\<lambda>s. foldl subtract_if_enough s
                   (map ci_quantity (filter (\<lambda>item. ci_productId item = ident) items)))
       (stock_of ident st)"
proof (induction items arbitrary: i st)
  case Nil
  then show ?case by (simp add: option.map_ident)
next
  case (Cons item rest)
  show ?case
    by (simp add: Cons.IH updateStock_stock_of option.map_comp comp_def)
qed

lemma forEach_stock_nonneg:
  "stock_nonneg st \<Longrightarrow> stock_nonneg (updateStock_forEach items stamps i st)"
  by (induction items arbitrary: i st) (simp_all add: updateStock_stock_nonneg)

lemma forEach_sales:
  "pos_sales (updateStock_forEach items stamps i st) = pos_sales st"
  by (induction items arbitrary: i st) (simp_all add: updateStock_other_stores)

text \<open>
  Claim C1, as amended.  \<open>salesStorage.add\<close> never rejects a sale: it returns the draft
  completed with id, timestamp and date, and the ledger afterwards is the old ledger with
  that record appended.  The line items are applied to the stock one after another, each
  on its own: for every product id, the stock afterwards is the stock before, run through
  the quantities of the line items that reference it, where a quantity larger than the
  stock at that moment is skipped and any other is subtracted.  A collection without
  negative stock before the sale has none afterwards.
\<close>

theorem salesStorage_add_item_by_item:
  "(let newSale = fst (salesStorage_add sale newId now stamps st);
        st' = snd (salesStorage_add sale newId now stamps st)
    in newSale = sale\<lparr>s_id := newId, s_timestamp := now, s_date := isoDate now\<rparr>
       \<and> salesStorage_getAll st' = salesStorage_getAll st @ [newSale]
       \<and> stock_of ident st' =
           map_option (\<lambda>s. foldl subtract_if_enough s
                         (map ci_quantity
                            (filter (\<lambda>item. ci_productId item = ident) (s_items sale))))
             (stock_of ident st)
       \<and> (stock_nonneg st \<longrightarrow> stock_nonneg st'))"
proof -
  let ?mid = "updateStock_forEach (s_items sale) stamps 0 st"
  let ?new = "sale\<lparr>s_id := newId, s_timestamp := now, s_date := isoDate now\<rparr>"
  have r: "salesStorage_add sale newId now stamps st =
      (?new, ?mid\<lparr>pos_sales := Some (salesStorage_getAll st @ [?new])\<rparr>)"
    by (simp add: salesStorage_add_def Let_def salesStorage_save_def)
  have p: "productStorage_getAll (?mid\<lparr>pos_sales := Some (salesStorage_getAll st @ [?new])\<rparr>)
      = productStorage_getAll ?mid"
    by (simp add: productStorage_getAll_def)
  have s: "stock_of ident (?mid\<lparr>pos_sales := Some (salesStorage_getAll st @ [?new])\<rparr>)
      = stock_of ident ?mid"
    by (simp add: stock_of_def p)
  have n: "stock_nonneg st \<longrightarrow> stock_nonneg (?mid\<lparr>pos_sales := Some (salesStorage_getAll st @ [?new])\<rparr>)"
    using forEach_stock_nonneg [of st "s_items sale" stamps 0]
    by (simp add: stock_nonneg_def p)
  show ?thesis
    unfolding Let_def r fst_conv snd_conv s
    using n by (simp add: forEach_stock_of salesStorage_getAll_def)
qed

theorem salesStorage_add_item_by_item_witness:
  "stock_nonneg demo_shop
   \<and> stock_of ''p1'' (snd (salesStorage_add demo_draft ''s9'' ''2024-03-05T10:00:00.000Z''
        (\<lambda>i. ''t'') demo_shop)) = Some 2
   \<and> stock_of ''p2'' (snd (salesStorage_add demo_draft ''s9'' ''2024-03-05T10:00:00.000Z''
        (\<lambda>i. ''t'') demo_shop)) = Some 0
   \<and> length (salesStorage_getAll (snd (salesStorage_add demo_draft ''s9''
        ''2024-03-05T10:00:00.000Z'' (\<lambda>i. ''t'') demo_shop))) = 1
   \<and> stock_nonneg (snd (salesStorage_add demo_draft ''s9'' ''2024-03-05T10:00:00.000Z''
        (\<lambda>i. ''t'') demo_shop))"
proof -
  have inv: "stock_nonneg demo_shop"
    by (simp add: stock_nonneg_def demo_shop_products demo_products_def mkProduct_def)
  have s1: "stock_of ''p1'' demo_shop = Some 5" and s2: "stock_of ''p2'' demo_shop = Some 0"
    by (simp_all add: stock_of_def demo_shop_products demo_products_def mkProduct_def)
  have l: "salesStorage_getAll demo_shop = []"
    by (simp add: salesStorage_getAll_def demo_shop_def empty_storage_def)
  from salesStorage_add_item_by_item [of demo_draft "''s9''" "''2024-03-05T10:00:00.000Z''"
      "\<lambda>i. ''t''" demo_shop "''p1''"]
    salesStorage_add_item_by_item [of demo_draft "''s9''" "''2024-03-05T10:00:00.000Z''"
      "\<lambda>i. ''t''" demo_shop "''p2''"] inv
  show ?thesis
    by (simp add: Let_def s1 s2 l demo_draft_def mkSale_def mkItem_def subtract_if_enough_def)
qed

text \<open>
  The claim as stated has the whole sale rejected.  With stocks 5 and 0 and a sale of 3
  units of the first product and 1 unit of the second, the first stock drops to 2, the
  second stays 0, and the sale is appended to the empty ledger.
\<close>

theorem salesStorage_add_partial_sale:
  "map p_stock (productStorage_getAll (snd
      (salesStorage_add demo_draft ''s9'' ''2024-03-05T10:00:00.000Z'' (\<lambda>i. ''t'') demo_shop)))
     = [2, 0]
   \<and> map s_id (salesStorage_getAll (snd
      (salesStorage_add demo_draft ''s9'' ''2024-03-05T10:00:00.000Z'' (\<lambda>i. ''t'') demo_shop)))
     = [''s9'']
   \<and> map p_stock (productStorage_getAll demo_shop) = [5, 0]
   \<and> salesStorage_getAll demo_shop = []"
  by (simp add: salesStorage_add_def demo_draft_def mkSale_def mkItem_def Let_def
      updateStock_def demo_shop_def empty_storage_def demo_products_def mkProduct_def
      productStorage_getAll_def productStorage_save_def salesStorage_getAll_def
      salesStorage_save_def)

section \<open>Insertion-ordered maps and sorting\<close>

lemma Map_set_absent: "map_of m k = None \<Longrightarrow> Map_set k v m = m @ [(k, v)]"
  by (induction m) (auto split: if_splits)

lemma sum_insert_by:
  fixes f :: "'a \<Rightarrow> number"
  shows "sum_list (map f (insert_by cmp x ys)) = f x + sum_list (map f ys)"
  by (induction ys) simp_all

lemma sum_Array_sort:
  fixes f :: "'a \<Rightarrow> number"
  shows "sum_list (map f (Array_sort cmp xs)) = sum_list (map f xs)"
  unfolding Array_sort_def by (induction xs) (simp_all add: sum_insert_by)

lemma set_insert_by: "set (insert_by cmp x ys) = insert x (set ys)"
  by (induction ys) auto

lemma set_Array_sort: "set (Array_sort cmp xs) = set xs"
  unfolding Array_sort_def by (induction xs) (simp_all add: set_insert_by)

section \<open>Top products\<close>


lemma first_occurrences_snoc:
  "first_occurrences (xs @ [x]) =
     (if x \<in> set xs then first_occurrences xs else first_occurrences xs @ [x])"
  by (simp add: first_occurrences_def)

lemma set_first_occurrences: "set (first_occurrences xs) = set xs"
  by (simp add: first_occurrences_def)

lemma distinct_first_occurrences: "distinct (first_occurrences xs)"
  by (simp add: first_occurrences_def)

lemma map_of_keyed:
  "map_of (map (\<lambda>k. (k, f k)) ks) k = (if k \<in> set ks then Some (f k) else None)"
  by (induction ks) auto

lemma Map_set_keyed_present:
  "distinct ks \<Longrightarrow> k \<in> set ks \<Longrightarrow> g k = v \<Longrightarrow> \<forall>k'\<in>set ks. k' \<noteq> k \<longrightarrow> g k' = f k' \<Longrightarrow>
     Map_set k v (map (\<lambda>k. (k, f k)) ks) = map (\<lambda>k. (k, g k)) ks"
proof (induction ks)
  case Nil
  then show ?case by simp
next
  case (Cons a ks)
  show ?case
  proof (cases "a = k")
    case True
    with Cons.prems have "k \<notin> set ks" by simp
    with Cons.prems(4) have "map (\<lambda>k. (k, f k)) ks = map (\<lambda>k. (k, g k)) ks"
      by (intro map_cong) auto
    with True Cons.prems(3) show ?thesis by simp
  next
    case False
    with Cons.prems have "Map_set k v (map (\<lambda>k. (k, f k)) ks) = map (\<lambda>k. (k, g k)) ks"
      by (intro Cons.IH) auto
    with False Cons.prems(4) show ?thesis by simp
  qed
qed

lemma Map_set_keyed_absent:
  assumes "k \<notin> set ks" and "g k = v" and "\<forall>k'\<in>set ks. g k' = f k'"
  shows "Map_set k v (map (\<lambda>k. (k, f k)) ks) = map (\<lambda>k. (k, g k)) (ks @ [k])"
proof -
  have "map_of (map (\<lambda>k. (k, f k)) ks) k = None"
    using assms(1) by (simp add: map_of_keyed)
  then have a: "Map_set k v (map (\<lambda>k. (k, f k)) ks) = map (\<lambda>k. (k, f k)) ks @ [(k, v)]"
    by (rule Map_set_absent)
  have b: "map (\<lambda>k. (k, f k)) ks = map (\<lambda>k. (k, g k)) ks"
    using assms(3) by (intro map_cong) auto
  show ?thesis
    by (subst a) (simp add: b assms(2))
qed












section \<open>Double-precision arithmetic\<close>

text \<open>
  \<open>round_double\<close> on sample values: decimal fractions, and a tie above \<open>2 ^ 53\<close>
  going to the even neighbour on either side of zero.
\<close>

lemma round_double_examples:
  "round_double (1 / 10) = 3602879701896397 / 36028797018963968"
  "round_double (1 / 3) = 6004799503160661 / 18014398509481984"
  "round_double 9007199254740993 = 9007199254740992"
  "round_double (- 9007199254740995) = - 9007199254740996"
  "double_add (round_double (1 / 10)) (round_double (2 / 10))
     = 1351079888211149 / 4503599627370496"
  by code_simp+

lemma round_half_even_of_int: "round_half_even (of_int m) = m"
  by (simp add: round_half_even_def Let_def)

lemma ilog2_of_int_le:
  assumes "\<bar>n\<bar> < 2 ^ 53"
  shows "ilog2 (of_int n) \<le> 52"
proof -
  have q: "quotient_of \<bar>of_int n :: rat\<bar> = (\<bar>n\<bar>, 1)"
    by (simp add: of_int_abs [symmetric] quotient_of_int del: of_int_abs)
  have b: "bitlen \<bar>n\<bar> \<le> 53"
    using assms by (simp add: bitlen_le_iff_power)
  have one: "bitlen 1 = 1"
    by (simp add: compute_bitlen)
  show ?thesis
    using b by (simp add: ilog2_def q one Let_def)
qed

lemma round_double_of_int:
  assumes "\<bar>n\<bar> < 2 ^ 53"
  shows "round_double (of_int n) = of_int n"
proof (cases "n = 0")
  case True
  then show ?thesis by (simp add: round_double_def)
next
  case False
  define e where "e = max (ilog2 (of_int n) - 52) (- 1074)"
  define j where "j = nat (- e)"
  from ilog2_of_int_le [OF assms] have "e \<le> 0"
    by (simp add: e_def)
  then have p: "pow2 e = 1 / 2 ^ j"
    by (cases "e = 0") (simp_all add: pow2_def j_def)
  have "(of_int n :: rat) / pow2 e = of_int (n * 2 ^ j)"
    by (simp add: p)
  then have "round_half_even (of_int n / pow2 e) = n * 2 ^ j"
    by (simp only: round_half_even_of_int)
  then have "of_int (round_half_even (of_int n / pow2 e)) * pow2 e = (of_int n :: rat)"
    by (simp add: p)
  with False show ?thesis
    by (simp add: round_double_def Let_def e_def)
qed

lemma double_add_exact:
  assumes "a \<in> \<int>" and "b \<in> \<int>" and "\<bar>a + b\<bar> < 2 ^ 53"
  shows "double_add a b = a + b"
proof -
  from assms(1,2) obtain i k where ik: "a = of_int i" "b = of_int k"
    by (auto elim!: Ints_cases)
  then have s: "a + b = of_int (i + k)"
    by simp
  with assms(3) have "(of_int \<bar>i + k\<bar> :: rat) < 2 ^ 53"
    by simp
  then have "\<bar>i + k\<bar> < 2 ^ 53"
    by (simp only: of_int_less_numeral_power_cancel_iff)
  then show ?thesis
    unfolding double_add_def s by (rule round_double_of_int)
qed

lemma foldl_double_add_exact:
  assumes "a \<in> \<int>" and "\<forall>x\<in>set xs. x \<in> \<int>"
    and "\<bar>a\<bar> + sum_list (map abs xs) < 2 ^ 53"
  shows "foldl double_add a xs = a + sum_list xs"
  using assms
proof (induction xs arbitrary: a)
  case Nil
  then show ?case by simp
next
  case (Cons x xs)
  have nn: "0 \<le> sum_list (map abs xs)"
    by (rule sum_list_nonneg) auto
  have "\<bar>a + x\<bar> \<le> \<bar>a\<bar> + \<bar>x\<bar>"
    by (rule abs_triangle_ineq)
  with Cons.prems(3) nn have small: "\<bar>a + x\<bar> < 2 ^ 53" "\<bar>a + x\<bar> + sum_list (map abs xs) < 2 ^ 53"
    by simp_all
  from Cons.prems have ex: "double_add a x = a + x"
    by (intro double_add_exact small) simp_all
  have "foldl double_add (a + x) xs = a + x + sum_list xs"
  proof (rule Cons.IH)
    show "a + x \<in> \<int>" using Cons.prems by simp
    show "\<forall>x\<in>set xs. x \<in> \<int>" using Cons.prems by simp
    show "\<bar>a + x\<bar> + sum_list (map abs xs) < 2 ^ 53" by (rule small)
  qed
  then show ?case
    by (simp add: ex add.assoc)
qed

lemma sum_abs_filter_le:
  "sum_list (map (\<lambda>x. \<bar>f x\<bar>) (filter P xs)) \<le> sum_list (map (\<lambda>x. \<bar>f x\<bar>) xs)"
  for f :: "'a \<Rightarrow> number"
  by (induction xs) (simp_all add: add_increasing)

lemma group_sums_partition:
  fixes f :: "'a \<Rightarrow> number"
  assumes "finite K"
  shows "(\<Sum>k\<in>K. sum_list (map f (filter (\<lambda>s. key s = k) xs))) =
     sum_list (map f (filter (\<lambda>s. key s \<in> K) xs))"
proof (induction xs)
  case Nil
  show ?case by simp
next
  case (Cons x xs)
  have "(\<Sum>k\<in>K. sum_list (map f (filter (\<lambda>s. key s = k) (x # xs)))) =
      (\<Sum>k\<in>K. (if key x = k then f x else 0) + sum_list (map f (filter (\<lambda>s. key s = k) xs)))"
    by (intro sum.cong) simp_all
  also have "\<dots> = (\<Sum>k\<in>K. if key x = k then f x else 0) +
      (\<Sum>k\<in>K. sum_list (map f (filter (\<lambda>s. key s = k) xs)))"
    by (rule sum.distrib)
  also have "(\<Sum>k\<in>K. if key x = k then f x else 0) = (if key x \<in> K then f x else 0)"
    using assms by (simp add: sum.delta')
  finally show ?case
    by (simp add: Cons.IH)
qed

lemma sums_by_first_occurrences:
  fixes f :: "'a \<Rightarrow> number"
  shows "sum_list (map (\<lambda>k. sum_list (map f (filter (\<lambda>s. key s = k) xs)))
           (first_occurrences (map key xs))) = sum_list (map f xs)"
proof -
  let ?ks = "first_occurrences (map key xs)"
  have "sum_list (map (\<lambda>k. sum_list (map f (filter (\<lambda>s. key s = k) xs))) ?ks) =
      (\<Sum>k\<in>set ?ks. sum_list (map f (filter (\<lambda>s. key s = k) xs)))"
    by (rule sum_list_distinct_conv_sum_set) (rule distinct_first_occurrences)
  also have "\<dots> = sum_list (map f (filter (\<lambda>s. key s \<in> set ?ks) xs))"
    by (rule group_sums_partition) simp
  also have "filter (\<lambda>s. key s \<in> set ?ks) xs = xs"
    by (simp add: set_first_occurrences)
  finally show ?thesis .
qed

section \<open>Report reconciliation\<close>

lemma dailyData_sale_step:
  "dailyData_sale sale m =
     (case Map_get (s_date sale) m of
        Some e \<Rightarrow> Map_set (s_date sale) (day_more e sale) m
      | None \<Rightarrow> Map_set (s_date sale) (day_first sale) m)"
  by (simp add: dailyData_sale_def Let_def day_more_def day_first_def itemCount_of_def
      split: option.splits)

lemma day_entry_other:
  "date \<noteq> s_date x \<Longrightarrow> day_entry (xs @ [x]) date = day_entry xs date"
  by (simp add: day_entry_def)

lemma day_entry_new:
  assumes "s_date x \<notin> s_date ` set xs"
  shows "day_entry (xs @ [x]) (s_date x) = day_first x"
proof -
  from assms have "filter (\<lambda>s. s_date s = s_date x) xs = []"
    by (auto simp: filter_empty_conv image_iff)
  then show ?thesis
    by (simp add: day_entry_def)
qed

lemma day_entry_more:
  assumes "s_date x \<in> s_date ` set xs"
  shows "day_entry (xs @ [x]) (s_date x) = day_more (day_entry xs (s_date x)) x"
proof -
  from assms have "filter (\<lambda>s. s_date s = s_date x) xs \<noteq> []"
    by (auto simp: filter_empty_conv)
  then show ?thesis
    by (simp add: day_entry_def Let_def)
qed

lemma dailyData_grouped:
  "fold dailyData_sale sales [] =
     map (\<lambda>date. (date, day_entry sales date)) (first_occurrences (map s_date sales))"
proof (induction sales rule: rev_induct)
  case Nil
  show ?case by (simp add: first_occurrences_def)
next
  case (snoc x xs)
  let ?k = "s_date x"
  let ?ks = "first_occurrences (map s_date xs)"
  let ?m = "map (\<lambda>date. (date, day_entry xs date)) ?ks"
  have step: "fold dailyData_sale (xs @ [x]) [] = dailyData_sale x ?m"
    by (simp add: snoc.IH)
  show ?case
  proof (cases "?k \<in> s_date ` set xs")
    case True
    then have get: "Map_get ?k ?m = Some (day_entry xs ?k)"
      by (simp add: Map_get_def map_of_keyed set_first_occurrences)
    have "Map_set ?k (day_more (day_entry xs ?k) x) ?m
          = map (\<lambda>date. (date, day_entry (xs @ [x]) date)) ?ks"
    proof (rule Map_set_keyed_present)
      show "distinct ?ks" by (rule distinct_first_occurrences)
      show "?k \<in> set ?ks" using True by (simp add: set_first_occurrences)
      show "day_entry (xs @ [x]) ?k = day_more (day_entry xs ?k) x"
        using True by (rule day_entry_more)
      show "\<forall>k'\<in>set ?ks. k' \<noteq> ?k \<longrightarrow> day_entry (xs @ [x]) k' = day_entry xs k'"
        by (simp add: day_entry_other)
    qed
    with get True show ?thesis
      unfolding step
      by (simp add: dailyData_sale_step first_occurrences_snoc)
  next
    case False
    then have get: "Map_get ?k ?m = None"
      by (simp add: Map_get_def map_of_keyed set_first_occurrences)
    have "Map_set ?k (day_first x) ?m
          = map (\<lambda>date. (date, day_entry (xs @ [x]) date)) (?ks @ [?k])"
    proof (rule Map_set_keyed_absent)
      show "?k \<notin> set ?ks" using False by (simp add: set_first_occurrences)
      show "day_entry (xs @ [x]) ?k = day_first x"
        using False by (rule day_entry_new)
      show "\<forall>k'\<in>set ?ks. day_entry (xs @ [x]) k' = day_entry xs k'"
      proof (intro ballI)
        fix k'
        assume "k' \<in> set ?ks"
        then have "k' \<in> s_date ` set xs"
          by (simp add: set_first_occurrences)
        with False have "k' \<noteq> ?k"
          by blast
        then show "day_entry (xs @ [x]) k' = day_entry xs k'"
          by (rule day_entry_other)
      qed
    qed
    with get False show ?thesis
      unfolding step
      by (simp add: dailyData_sale_step first_occurrences_snoc)
  qed
qed

lemma dd_sales_foldl:
  "dd_sales (foldl day_more e xs) = foldl double_add (dd_sales e) (map s_total xs)"
  by (induction xs arbitrary: e) (simp_all add: day_more_def)

lemma dd_transactions_foldl:
  "dd_transactions (foldl day_more e xs) =
     foldl double_add (dd_transactions e) (map (\<lambda>s. 1) xs)"
  by (induction xs arbitrary: e) (simp_all add: day_more_def)

lemma day_entry_sales:
  assumes "date \<in> s_date ` set sales"
  shows "dd_sales (day_entry sales date) =
     double_sum (map s_total (filter (\<lambda>s. s_date s = date) sales))"
proof -
  from assms have "filter (\<lambda>s. s_date s = date) sales \<noteq> []"
    by (auto simp: filter_empty_conv)
  then obtain g rest where g: "filter (\<lambda>s. s_date s = date) sales = g # rest"
    by (cases "filter (\<lambda>s. s_date s = date) sales") auto
  show ?thesis
    by (simp add: day_entry_def g dd_sales_foldl day_first_def)
qed

lemma day_entry_transactions:
  assumes "date \<in> s_date ` set sales" and "length sales < 2 ^ 53"
  shows "dd_transactions (day_entry sales date) =
     of_nat (length (filter (\<lambda>s. s_date s = date) sales))"
proof -
  from assms(1) have "filter (\<lambda>s. s_date s = date) sales \<noteq> []"
    by (auto simp: filter_empty_conv)
  then obtain g rest where g: "filter (\<lambda>s. s_date s = date) sales = g # rest"
    by (cases "filter (\<lambda>s. s_date s = date) sales") auto
  have "length (g # rest) \<le> length sales"
    unfolding g [symmetric] by (rule length_filter_le)
  with assms(2) have "Suc (length rest) < 2 ^ 53"
    by simp
  then have "(of_nat (Suc (length rest)) :: rat) < 2 ^ 53"
    by (simp only: of_nat_less_numeral_power_cancel_iff)
  then have b: "\<bar>1 :: rat\<bar> + sum_list (map abs (map (\<lambda>s. 1 :: rat) rest)) < 2 ^ 53"
    by (simp add: sum_list_triv comp_def add.commute)
  have "foldl double_add (1 :: rat) (map (\<lambda>s. 1) rest) = 1 + sum_list (map (\<lambda>s. 1) rest)"
    by (rule foldl_double_add_exact [OF _ _ b]) auto
  then show ?thesis
    by (simp add: day_entry_def g dd_transactions_foldl day_first_def sum_list_triv)
qed

lemma distinct_map_insert_by:
  "distinct (map f (insert_by cmp x ys)) \<longleftrightarrow> f x \<notin> f ` set ys \<and> distinct (map f ys)"
  by (induction ys) (auto simp: set_insert_by)

lemma distinct_map_Array_sort:
  "distinct (map f (Array_sort cmp xs)) \<longleftrightarrow> distinct (map f xs)"
  unfolding Array_sort_def
proof (induction xs)
  case Nil
  show ?case by simp
next
  case (Cons x xs)
  have "set (foldr (insert_by cmp) xs []) = set xs"
    using set_Array_sort [of cmp xs] by (simp add: Array_sort_def)
  with Cons show ?case
    by (simp add: distinct_map_insert_by)
qed

lemma dailyBreakdown_rows:
  "dailyBreakdown_of localeCompare sales =
     Array_sort (\<lambda>a b. localeCompare (dr_date a) (dr_date b))
       (map (\<lambda>date. \<lparr>dr_date = date, dr_sales = dd_sales (day_entry sales date),
                      dr_transactions = dd_transactions (day_entry sales date),
                      dr_items = dd_items (day_entry sales date)\<rparr>)
          (first_occurrences (map s_date sales)))"
  by (simp add: dailyBreakdown_of_def dailyData_grouped comp_def)

lemma dailyBreakdown_dates:
  "set (map dr_date (dailyBreakdown_of localeCompare sales)) = set (map s_date sales)"
  "distinct (map dr_date (dailyBreakdown_of localeCompare sales))"
proof -
  show "set (map dr_date (dailyBreakdown_of localeCompare sales)) = set (map s_date sales)"
    by (simp add: dailyBreakdown_rows set_Array_sort image_image set_first_occurrences)
  show "distinct (map dr_date (dailyBreakdown_of localeCompare sales))"
    by (simp add: dailyBreakdown_rows distinct_map_Array_sort comp_def
        distinct_first_occurrences)
qed

lemma dailyBreakdown_row_sales:
  assumes "row \<in> set (dailyBreakdown_of localeCompare sales)"
  shows "dr_sales row =
     double_sum (map s_total (filter (\<lambda>s. s_date s = dr_date row) sales))"
proof -
  from assms obtain date where d: "date \<in> s_date ` set sales"
    and r: "row = \<lparr>dr_date = date, dr_sales = dd_sales (day_entry sales date),
                   dr_transactions = dd_transactions (day_entry sales date),
                   dr_items = dd_items (day_entry sales date)\<rparr>"
    by (auto simp: dailyBreakdown_rows set_Array_sort set_first_occurrences)
  from day_entry_sales [OF d] show ?thesis
    by (simp add: r)
qed

lemma dailyBreakdown_transactions:
  assumes "length sales < 2 ^ 53"
  shows "sum_list (map dr_transactions (dailyBreakdown_of localeCompare sales)) =
     of_nat (length sales)"
proof -
  let ?ks = "first_occurrences (map s_date sales)"
  have "sum_list (map dr_transactions (dailyBreakdown_of localeCompare sales)) =
      sum_list (map (\<lambda>date. dd_transactions (day_entry sales date)) ?ks)"
    by (simp add: dailyBreakdown_rows sum_Array_sort comp_def)
  also have "map (\<lambda>date. dd_transactions (day_entry sales date)) ?ks =
      map (\<lambda>date. sum_list (map (\<lambda>s. 1) (filter (\<lambda>s. s_date s = date) sales))) ?ks"
  proof (rule map_cong [OF refl])
    fix date
    assume "date \<in> set ?ks"
    then have "date \<in> s_date ` set sales"
      by (simp add: set_first_occurrences)
    from day_entry_transactions [OF this assms]
    show "dd_transactions (day_entry sales date) =
        sum_list (map (\<lambda>s. 1) (filter (\<lambda>s. s_date s = date) sales))"
      by (simp add: sum_list_triv)
  qed
  also have "sum_list \<dots> = sum_list (map (\<lambda>s. 1) sales)"
    by (rule sums_by_first_occurrences)
  finally show ?thesis
    by (simp add: sum_list_triv)
qed

lemma foldl_double_add_totals:
  "foldl (\<lambda>sum sale. double_add sum (s_total sale)) a sales =
     foldl double_add a (map s_total sales)"
  by (induction sales arbitrary: a) simp_all

lemma double_sum_exact:
  assumes "\<forall>x\<in>set xs. x \<in> \<int>" and "sum_list (map abs xs) < 2 ^ 53"
  shows "double_sum xs = sum_list xs"
proof (cases xs)
  case Nil
  then show ?thesis by simp
next
  case (Cons x rest)
  with assms have "foldl double_add x rest = x + sum_list rest"
    by (intro foldl_double_add_exact) simp_all
  with Cons show ?thesis by simp
qed

lemma dailyBreakdown_sales_exact:
  assumes "\<forall>s\<in>set sales. s_total s \<in> \<int>"
    and "sum_list (map (\<lambda>s. \<bar>s_total s\<bar>) sales) < 2 ^ 53"
  shows "sum_list (map dr_sales (dailyBreakdown_of localeCompare sales)) =
     foldl (\<lambda>sum sale. double_add sum (s_total sale)) 0 sales"
proof -
  let ?ks = "first_occurrences (map s_date sales)"
  have total: "foldl (\<lambda>sum sale. double_add sum (s_total sale)) 0 sales =
      sum_list (map s_total sales)"
  proof -
    have "foldl double_add 0 (map s_total sales) = 0 + sum_list (map s_total sales)"
      using assms by (intro foldl_double_add_exact) (simp_all add: comp_def)
    then show ?thesis
      by (simp add: foldl_double_add_totals)
  qed
  have "sum_list (map dr_sales (dailyBreakdown_of localeCompare sales)) =
      sum_list (map (\<lambda>date. dd_sales (day_entry sales date)) ?ks)"
    by (simp add: dailyBreakdown_rows sum_Array_sort comp_def)
  also have "map (\<lambda>date. dd_sales (day_entry sales date)) ?ks =
      map (\<lambda>date. sum_list (map s_total (filter (\<lambda>s. s_date s = date) sales))) ?ks"
  proof (rule map_cong [OF refl])
    fix date
    assume "date \<in> set ?ks"
    then have d: "date \<in> s_date ` set sales"
      by (simp add: set_first_occurrences)
    have "sum_list (map (\<lambda>s. \<bar>s_total s\<bar>) (filter (\<lambda>s. s_date s = date) sales))
        \<le> sum_list (map (\<lambda>s. \<bar>s_total s\<bar>) sales)"
      by (rule sum_abs_filter_le)
    with assms(2)
    have b: "sum_list (map abs (map s_total (filter (\<lambda>s. s_date s = date) sales))) < 2 ^ 53"
      by (simp add: comp_def)
    have "double_sum (map s_total (filter (\<lambda>s. s_date s = date) sales)) =
        sum_list (map s_total (filter (\<lambda>s. s_date s = date) sales))"
      using assms(1) by (intro double_sum_exact b) simp
    with day_entry_sales [OF d]
    show "dd_sales (day_entry sales date) =
        sum_list (map s_total (filter (\<lambda>s. s_date s = date) sales))"
      by simp
  qed
  also have "sum_list \<dots> = sum_list (map s_total sales)"
    by (rule sums_by_first_occurrences)
  finally show ?thesis
    by (simp add: total)
qed

lemma demo_decimal_range:
  "getByDateRange ''2024-02-01'' ''2024-02-02'' demo_decimal_ledger = demo_decimal_sales"
  by (simp add: getByDateRange_def demo_decimal_ledger_def salesStorage_getAll_def
      demo_decimal_sales_def mkSale_def Let_def)

lemma demo_range: "getByDateRange ''2024-01-01'' ''2024-01-02'' demo_ledger = demo_sales"
  by (simp add: getByDateRange_def demo_ledger_sales demo_sales_def mkSale_def Let_def)

lemma demo_doubles:
  "round_double (112 / 100) = dbl_1_12"
  "round_double (896 / 100) = dbl_8_96"
  "double_add 0 dbl_1_12 = dbl_1_12"
  "double_add dbl_1_12 dbl_1_12 = dbl_2_24"
  "double_add dbl_2_24 dbl_8_96 = dbl_11_2_below"
  "double_add dbl_1_12 dbl_8_96 = dbl_10_08"
  "double_add 0 dbl_10_08 = dbl_10_08"
  "double_add dbl_10_08 dbl_1_12 = dbl_11_2_above"
  by code_simp+

lemma demo_decimal_report:
  "map_option rd_totalSales
      (generateReport rp_custom ''2024-02-01'' ''2024-02-02'' codeUnitCompare demo_decimal_ledger)
     = Some dbl_11_2_below"
  "map_option (map dr_sales \<circ> rd_dailyBreakdown)
      (generateReport rp_custom ''2024-02-01'' ''2024-02-02'' codeUnitCompare demo_decimal_ledger)
     = Some [dbl_10_08, dbl_1_12]"
  by (simp_all add: generateReport_def Let_def demo_decimal_range dailyBreakdown_of_def
      dailyData_sale_def Map_get_def Array_sort_def codeUnitCompare_def demo_decimal_sales_def
      mkSale_def demo_doubles)

text \<open>
  Claim C5, as amended.  \<open>generateReport\<close> produces a report unless the period is custom
  and a date is missing.  In every report it produces, over the sales in the requested
  date range: \<open>totalTransactions\<close> is their number, and the \<open>transactions\<close> fields of the
  \<open>dailyBreakdown\<close> rows sum to it (for fewer than \<open>2 ^ 53\<close> sales, where counting in
  doubles is exact).  \<open>totalSales\<close> is the double-precision sum of all their totals in
  ledger order; there is one row per date, and its \<open>sales\<close> field is the double-precision
  sum of that date's totals in ledger order.  The \<open>sales\<close> fields sum to \<open>totalSales\<close>
  when no addition rounds, as for whole-number totals whose absolute values sum to less
  than \<open>2 ^ 53\<close>.
\<close>

theorem report_dailyBreakdown_reconciles:
  "(generateReport reportPeriod start end' localeCompare st = None \<longleftrightarrow>
      reportPeriod = rp_custom \<and> (start = [] \<or> end' = []))
   \<and> (\<forall>r. generateReport reportPeriod start end' localeCompare st = Some r \<longrightarrow>
        (let sales = getByDateRange start end' st in
           rd_totalSales r = foldl double_add 0 (map s_total sales)
         \<and> rd_totalTransactions r = of_nat (length sales)
         \<and> set (map dr_date (rd_dailyBreakdown r)) = set (map s_date sales)
         \<and> distinct (map dr_date (rd_dailyBreakdown r))
         \<and> (\<forall>row \<in> set (rd_dailyBreakdown r).
               dr_sales row =
                 double_sum (map s_total (filter (\<lambda>s. s_date s = dr_date row) sales)))
         \<and> (length sales < 2 ^ 53 \<longrightarrow>
               sum_list (map dr_transactions (rd_dailyBreakdown r)) = rd_totalTransactions r)
         \<and> ((\<forall>s \<in> set sales. s_total s \<in> \<int>)
               \<and> sum_list (map (\<lambda>s. \<bar>s_total s\<bar>) sales) < 2 ^ 53 \<longrightarrow>
               sum_list (map dr_sales (rd_dailyBreakdown r)) = rd_totalSales r)))"
proof (intro conjI allI impI)
  show "generateReport reportPeriod start end' localeCompare st = None \<longleftrightarrow>
      reportPeriod = rp_custom \<and> (start = [] \<or> end' = [])"
    by (simp add: generateReport_def Let_def)
next
  fix r
  let ?sales = "getByDateRange start end' st"
  assume "generateReport reportPeriod start end' localeCompare st = Some r"
  then have r: "rd_totalSales r = foldl (\<lambda>sum sale. double_add sum (s_total sale)) 0 ?sales"
    "rd_totalTransactions r = of_nat (length ?sales)"
    "rd_dailyBreakdown r = dailyBreakdown_of localeCompare ?sales"
    by (auto simp: generateReport_def Let_def split: if_splits)
  have a: "rd_totalSales r = foldl double_add 0 (map s_total ?sales)"
    by (simp add: r(1) foldl_double_add_totals)
  have b: "\<forall>row \<in> set (rd_dailyBreakdown r).
      dr_sales row = double_sum (map s_total (filter (\<lambda>s. s_date s = dr_date row) ?sales))"
    unfolding r(3) by (intro ballI dailyBreakdown_row_sales)
  have c: "length ?sales < 2 ^ 53 \<longrightarrow>
      sum_list (map dr_transactions (rd_dailyBreakdown r)) = rd_totalTransactions r"
    unfolding r(2,3) by (intro impI dailyBreakdown_transactions)
  have d: "(\<forall>s \<in> set ?sales. s_total s \<in> \<int>)
        \<and> sum_list (map (\<lambda>s. \<bar>s_total s\<bar>) ?sales) < 2 ^ 53 \<longrightarrow>
      sum_list (map dr_sales (rd_dailyBreakdown r)) = rd_totalSales r"
    unfolding r(1,3) by (intro impI dailyBreakdown_sales_exact) simp_all
  have e: "set (map dr_date (rd_dailyBreakdown r)) = set (map s_date ?sales)"
    "distinct (map dr_date (rd_dailyBreakdown r))"
    unfolding r(3) by (rule dailyBreakdown_dates)+
  show "let sales = ?sales in
           rd_totalSales r = foldl double_add 0 (map s_total sales)
         \<and> rd_totalTransactions r = of_nat (length sales)
         \<and> set (map dr_date (rd_dailyBreakdown r)) = set (map s_date sales)
         \<and> distinct (map dr_date (rd_dailyBreakdown r))
         \<and> (\<forall>row \<in> set (rd_dailyBreakdown r).
               dr_sales row =
                 double_sum (map s_total (filter (\<lambda>s. s_date s = dr_date row) sales)))
         \<and> (length sales < 2 ^ 53 \<longrightarrow>
               sum_list (map dr_transactions (rd_dailyBreakdown r)) = rd_totalTransactions r)
         \<and> ((\<forall>s \<in> set sales. s_total s \<in> \<int>)
               \<and> sum_list (map (\<lambda>s. \<bar>s_total s\<bar>) sales) < 2 ^ 53 \<longrightarrow>
               sum_list (map dr_sales (rd_dailyBreakdown r)) = rd_totalSales r)"
    unfolding Let_def
    using a r(2) e b c d
    by blast
qed

theorem report_dailyBreakdown_reconciles_witness:
  "generateReport rp_custom ''2024-01-01'' ''2024-01-02'' codeUnitCompare demo_ledger \<noteq> None
   \<and> (case generateReport rp_custom ''2024-01-01'' ''2024-01-02'' codeUnitCompare demo_ledger of
        None \<Rightarrow> False
      | Some r \<Rightarrow> rd_totalSales r = 155 \<and> sum_list (map dr_sales (rd_dailyBreakdown r)) = 155
          \<and> rd_totalTransactions r = 3
          \<and> sum_list (map dr_transactions (rd_dailyBreakdown r)) = 3
          \<and> (\<forall>row \<in> set (rd_dailyBreakdown r).
                dr_sales row =
                  double_sum (map s_total (filter (\<lambda>s. s_date s = dr_date row) demo_sales))))"
proof -
  note t = report_dailyBreakdown_reconciles [of rp_custom "''2024-01-01''" "''2024-01-02''"
      codeUnitCompare demo_ledger]
  from t have "generateReport rp_custom ''2024-01-01'' ''2024-01-02'' codeUnitCompare demo_ledger
      \<noteq> None"
    by simp
  then obtain r where r:
    "generateReport rp_custom ''2024-01-01'' ''2024-01-02'' codeUnitCompare demo_ledger = Some r"
    by blast
  have ints: "\<forall>s \<in> set demo_sales. s_total s \<in> \<int>"
    by (simp add: demo_sales_def mkSale_def)
  have small: "sum_list (map (\<lambda>s. \<bar>s_total s\<bar>) demo_sales) < 2 ^ 53"
    by (simp add: demo_sales_def mkSale_def)
  have len: "length demo_sales < 2 ^ 53"
    by (simp add: demo_sales_def)
  from t r have f: "rd_totalSales r = foldl double_add 0 (map s_total demo_sales)"
    "rd_totalTransactions r = of_nat (length demo_sales)"
    "\<forall>row \<in> set (rd_dailyBreakdown r).
        dr_sales row = double_sum (map s_total (filter (\<lambda>s. s_date s = dr_date row) demo_sales))"
    "length demo_sales < 2 ^ 53 \<longrightarrow>
        sum_list (map dr_transactions (rd_dailyBreakdown r)) = rd_totalTransactions r"
    "(\<forall>s \<in> set demo_sales. s_total s \<in> \<int>)
        \<and> sum_list (map (\<lambda>s. \<bar>s_total s\<bar>) demo_sales) < 2 ^ 53 \<longrightarrow>
        sum_list (map dr_sales (rd_dailyBreakdown r)) = rd_totalSales r"
    by (simp_all add: demo_range Let_def)
  have v: "foldl double_add 0 (map s_total demo_sales) = 155"
    by code_simp
  from f ints small len v show ?thesis
    by (simp add: r demo_sales_def)
qed

text \<open>
  The claim as stated has the rows sum to \<open>totalSales\<close> for every set of sales.  For the
  totals 1.12, 1.12 and 8.96, the second on another day, \<open>totalSales\<close> is the double
  11.200000000000001, while the rows hold 10.080000000000002 and 1.12: they sum to
  another number, and in doubles to 11.200000000000003.
\<close>

theorem report_dailyBreakdown_rounding:
  "map_option rd_totalSales
      (generateReport rp_custom ''2024-02-01'' ''2024-02-02'' codeUnitCompare demo_decimal_ledger)
     = Some (6305039478318695 / 562949953421312)
   \<and> map_option (map dr_sales \<circ> rd_dailyBreakdown)
      (generateReport rp_custom ''2024-02-01'' ''2024-02-02'' codeUnitCompare demo_decimal_ledger)
     = Some [2837267765243413 / 281474976710656, 1261007895663739 / 1125899906842624]
   \<and> map_option (sum_list \<circ> map dr_sales \<circ> rd_dailyBreakdown)
      (generateReport rp_custom ''2024-02-01'' ''2024-02-02'' codeUnitCompare demo_decimal_ledger)
     = Some (12610078956637391 / 1125899906842624)
   \<and> map_option (foldl double_add 0 \<circ> map dr_sales \<circ> rd_dailyBreakdown)
      (generateReport rp_custom ''2024-02-01'' ''2024-02-02'' codeUnitCompare demo_decimal_ledger)
     = Some (788129934789837 / 70368744177664)
   \<and> map_option (sum_list \<circ> map dr_sales \<circ> rd_dailyBreakdown)
      (generateReport rp_custom ''2024-02-01'' ''2024-02-02'' codeUnitCompare demo_decimal_ledger)
     \<noteq> map_option rd_totalSales
      (generateReport rp_custom ''2024-02-01'' ''2024-02-02'' codeUnitCompare demo_decimal_ledger)"
proof -
  let ?report =
    "generateReport rp_custom ''2024-02-01'' ''2024-02-02'' codeUnitCompare demo_decimal_ledger"
  from demo_decimal_report(2) obtain r where r: "?report = Some r"
    and rows: "map dr_sales (rd_dailyBreakdown r) = [dbl_10_08, dbl_1_12]"
    by auto
  from demo_decimal_report(1) r have total: "rd_totalSales r = dbl_11_2_below"
    by simp
  show ?thesis
    unfolding r
    by (simp add: rows total demo_doubles)
      (simp add: dbl_10_08_def dbl_1_12_def dbl_11_2_below_def dbl_11_2_above_def)
qed

end
